theory Spec2Isabelle
  imports Main
begin

section \<open>Python strings and exceptions\<close>

text \<open>
  A Python \<open>str\<close> is modelled as a HOL \<open>string\<close>: one \<open>char\<close> per code point, for
  the code points U+0000 to U+00FF. On that range the decimal digits matched by the
  regular-expression class \<open>\d\<close> are exactly \<open>0\<close> to \<open>9\<close>, and the characters removed by
  \<open>str.strip()\<close> and separating the tokens of \<open>str.split()\<close> are those listed in
  \<open>py_isspace\<close>. Calls to the logger and the console only produce diagnostics; they do
  not influence any returned value and are left out of the model.
\<close>

text \<open>
  The exceptions the program raises or meets. All of them but \<open>SystemExit\<close> (raised by
  \<open>sys.exit\<close>) are subclasses of Python's \<open>Exception\<close>, which is what an
  \<open>except Exception\<close> clause catches.
\<close>

datatype py_error =
    ValueError string
  | AttributeError
  | KeyError
  | FileNotFoundError string
  | IsADirectoryError
  | NotADirectoryError
  | FileExistsError
  | SameFileError
  | CsvError
  | SystemExit nat

fun is_Exception :: "py_error \<Rightarrow> bool" where
  "is_Exception (SystemExit _) = False"
| "is_Exception _ = True"

text \<open>Sequencing of computations that may raise: the first exception ends the block.\<close>

definition bind :: "py_error + 'a \<Rightarrow> ('a \<Rightarrow> py_error + 'b) \<Rightarrow> py_error + 'b" where
  "bind m f = (case m of Inl e \<Rightarrow> Inl e | Inr x \<Rightarrow> f x)"

definition is_digit :: "char \<Rightarrow> bool" where
  "is_digit c = (c \<in> set ''0123456789'')"

definition py_isspace :: "char \<Rightarrow> bool" where
  "py_isspace c =
     (c \<in> {CHR 0x09, CHR 0x0A, CHR 0x0B, CHR 0x0C, CHR 0x0D,
            CHR 0x1C, CHR 0x1D, CHR 0x1E, CHR 0x1F, CHR 0x20, CHR 0x85, CHR 0xA0})"

text \<open>\<open>s.strip()\<close>: drop leading and trailing whitespace.\<close>

definition py_lstrip :: "string \<Rightarrow> string" where
  "py_lstrip s = dropWhile py_isspace s"

definition py_rstrip :: "string \<Rightarrow> string" where
  "py_rstrip s = rev (dropWhile py_isspace (rev s))"

definition py_strip :: "string \<Rightarrow> string" where
  "py_strip s = py_rstrip (py_lstrip s)"

text \<open>\<open>sep.join(parts)\<close>.\<close>

fun py_join :: "string \<Rightarrow> string list \<Rightarrow> string" where
  "py_join sep [] = []"
| "py_join sep [x] = x"
| "py_join sep (x # y # ys) = x @ sep @ py_join sep (y # ys)"

text \<open>\<open>s[i:j]\<close> for \<open>0 \<le> i \<le> j\<close>, and \<open>range(a, b, k)\<close> for a positive step.\<close>

definition py_slice :: "'a list \<Rightarrow> nat \<Rightarrow> nat \<Rightarrow> 'a list" where
  "py_slice s i j = take (j - i) (drop i s)"

definition py_range_step :: "nat \<Rightarrow> nat \<Rightarrow> nat \<Rightarrow> nat list" where
  "py_range_step a b k = map (\<lambda>q. a + k * q) [0 ..< (b - a + k - 1) div k]"

text \<open>\<open>re.sub(r"\D", "", s)\<close>: delete every character that is not a decimal digit.\<close>

definition re_sub_nondigits :: "string \<Rightarrow> string" where
  "re_sub_nondigits s = filter is_digit s"

definition startswith :: "string \<Rightarrow> string \<Rightarrow> bool" where
  "startswith s p = (take (length p) s = p)"

section \<open>Field normalizer: phone numbers\<close>

text \<open>
  \<^verbatim>\<open>
  def clean_phone_number(self, phone):
      cleaned = re.sub(r"\D", "", phone)
      if len(cleaned) < 10:
          raise ValueError(f"Phone number too short: {phone}")
      if len(cleaned) == 10:
          cleaned = f"{self.country_code} {cleaned}"
      elif len(cleaned) > 10 and not cleaned.startswith("+"):
          cleaned = f"+{cleaned}"
      cleaned = " ".join(cleaned[i : i + 4] for i in range(0, len(cleaned), 4))
      return cleaned.strip()
  \<close>
  The configured country code is the first argument.
\<close>

definition group4 :: "string \<Rightarrow> string" where
  "group4 cleaned =
     py_join '' '' (map (\<lambda>i. py_slice cleaned i (i + 4)) (py_range_step 0 (length cleaned) 4))"

definition clean_phone_number :: "string \<Rightarrow> string \<Rightarrow> py_error + string" where
  "clean_phone_number country_code phone =
     (let cleaned = re_sub_nondigits phone in
      if length cleaned < 10 then Inl (ValueError (''Phone number too short: '' @ phone))
      else
        let cleaned' =
              (if length cleaned = 10 then country_code @ '' '' @ cleaned
               else if length cleaned > 10 \<and> \<not> startswith cleaned ''+'' then ''+'' @ cleaned
               else cleaned)
        in Inr (py_strip (group4 cleaned')))"

text \<open>
  The grouping in words, for comparison: a string of at most four characters stays as
  it is; a longer one is its first four characters, one space, and the rest grouped in
  the same way.
\<close>

function in_blocks_of_four :: "string \<Rightarrow> string" where
  "in_blocks_of_four s =
     (if length s \<le> 4 then s else take 4 s @ '' '' @ in_blocks_of_four (drop 4 s))"
  by pat_completeness auto
termination
  by (relation "measure length") auto

declare in_blocks_of_four.simps [simp del]

section \<open>More string operations\<close>

text \<open>
  \<open>s.split()\<close> with no argument: the maximal runs of non-whitespace characters, in
  order. The first argument is the token read so far.
\<close>

fun split_ws :: "string \<Rightarrow> string \<Rightarrow> string list" where
  "split_ws cur [] = (if cur = [] then [] else [cur])"
| "split_ws cur (c # cs) =
     (if py_isspace c then (if cur = [] then split_ws [] cs else cur # split_ws [] cs)
      else split_ws (cur @ [c]) cs)"

definition py_split :: "string \<Rightarrow> string list" where
  "py_split s = split_ws [] s"

text \<open>
  \<open>s.lower()\<close> on U+0000 to U+00FF: the capital letters \<open>A\<close> to \<open>Z\<close> and U+00C0 to
  U+00DE (U+00D7, the multiplication sign, excepted) move up by 32; every other character
  stays.
\<close>

definition py_lower_char :: "char \<Rightarrow> char" where
  "py_lower_char c =
     (let n = (of_char c :: nat) in
      if (65 \<le> n \<and> n \<le> 90) \<or> (192 \<le> n \<and> n \<le> 222 \<and> n \<noteq> 215)
      then char_of (n + 32) else c)"

definition py_lower :: "string \<Rightarrow> string" where
  "py_lower s = map py_lower_char s"

text \<open>A line break, and \<open>s.split("\n")\<close>.\<close>

abbreviation NL :: string where
  "NL \<equiv> [CHR 0x0A]"

fun lines_of :: "string \<Rightarrow> string list" where
  "lines_of [] = [[]]"
| "lines_of (c # cs) =
     (if c = CHR 0x0A then [] # lines_of cs
      else (case lines_of cs of [] \<Rightarrow> [[c]] | l # ls \<Rightarrow> (c # l) # ls))"

section \<open>Regular expressions\<close>

text \<open>
  The fragment of Python's \<open>re\<close> syntax the program uses: character classes, literal
  characters, sequencing and repetition. \<open>Alt\<close>, \<open>Eps\<close> and \<open>Empty\<close> are needed for the
  derivatives by which the matcher decides membership.
\<close>

datatype rexp =
    Empty
  | Eps
  | Cls "char \<Rightarrow> bool"
  | Lit char
  | Alt rexp rexp
  | Seq rexp rexp
  | Star rexp

definition re_plus :: "rexp \<Rightarrow> rexp" where
  "re_plus r = Seq r (Star r)"

definition re_at_least2 :: "rexp \<Rightarrow> rexp" where
  "re_at_least2 r = Seq r (Seq r (Star r))"

fun nullable :: "rexp \<Rightarrow> bool" where
  "nullable Empty = False"
| "nullable Eps = True"
| "nullable (Cls p) = False"
| "nullable (Lit a) = False"
| "nullable (Alt r s) = (nullable r \<or> nullable s)"
| "nullable (Seq r s) = (nullable r \<and> nullable s)"
| "nullable (Star r) = True"

fun deriv :: "char \<Rightarrow> rexp \<Rightarrow> rexp" where
  "deriv c Empty = Empty"
| "deriv c Eps = Empty"
| "deriv c (Cls p) = (if p c then Eps else Empty)"
| "deriv c (Lit a) = (if c = a then Eps else Empty)"
| "deriv c (Alt r s) = Alt (deriv c r) (deriv c s)"
| "deriv c (Seq r s) =
     (if nullable r then Alt (Seq (deriv c r) s) (deriv c s) else Seq (deriv c r) s)"
| "deriv c (Star r) = Seq (deriv c r) (Star r)"

fun derivs :: "string \<Rightarrow> rexp \<Rightarrow> rexp" where
  "derivs [] r = r"
| "derivs (c # cs) r = derivs cs (deriv c r)"

definition re_fullmatch :: "rexp \<Rightarrow> string \<Rightarrow> bool" where
  "re_fullmatch r s = nullable (derivs s r)"

text \<open>
  \<open>re.match("^" + r + "$", s)\<close> without flags: \<open>r\<close> must match from the start of \<open>s\<close> up to
  a position that \<open>$\<close> accepts, which is the end of \<open>s\<close> or the place just before a
  line break that ends \<open>s\<close>.
\<close>

definition re_match_anchored :: "rexp \<Rightarrow> string \<Rightarrow> bool" where
  "re_match_anchored r s =
     (re_fullmatch r s \<or> (s \<noteq> [] \<and> last s = CHR 0x0A \<and> re_fullmatch r (butlast s)))"

section \<open>Field normalizer: email addresses\<close>

text \<open>
  \<^verbatim>\<open>
  def validate_email(self, email):
      if not email:
          return None
      email = email.strip()
      if re.match(r"^[a-zA-Z0-9._%+-]+@[a-zA-Z0-9.-]+\.[a-zA-Z]{2,}$", email):
          return email
      self.logger.warning(f"Invalid email format: {email}")
      return None
  \<close>
\<close>

definition in_range :: "char \<Rightarrow> char \<Rightarrow> char \<Rightarrow> bool" where
  "in_range lo hi c = ((of_char lo :: nat) \<le> of_char c \<and> (of_char c :: nat) \<le> of_char hi)"

definition ascii_letter :: "char \<Rightarrow> bool" where
  "ascii_letter c = (in_range CHR ''a'' CHR ''z'' c \<or> in_range CHR ''A'' CHR ''Z'' c)"

definition email_local_char :: "char \<Rightarrow> bool" where
  "email_local_char c =
     (in_range CHR ''a'' CHR ''z'' c \<or> in_range CHR ''A'' CHR ''Z'' c \<or>
      in_range CHR ''0'' CHR ''9'' c \<or> c \<in> set ''._%+-'')"

definition email_domain_char :: "char \<Rightarrow> bool" where
  "email_domain_char c =
     (in_range CHR ''a'' CHR ''z'' c \<or> in_range CHR ''A'' CHR ''Z'' c \<or>
      in_range CHR ''0'' CHR ''9'' c \<or> c \<in> set ''.-'')"

definition email_pattern :: rexp where
  "email_pattern =
     Seq (re_plus (Cls email_local_char))
       (Seq (Lit CHR ''@'')
         (Seq (re_plus (Cls email_domain_char))
           (Seq (Lit CHR ''.'') (re_at_least2 (Cls ascii_letter)))))"

definition validate_email :: "string option \<Rightarrow> string option" where
  "validate_email email =
     (case email of
        None \<Rightarrow> None
      | Some e \<Rightarrow>
          if e = [] then None
          else let e' = py_strip e in
               if re_match_anchored email_pattern e' then Some e' else None)"

text \<open>
  The shape of an accepted address in words: a non-empty local part of ASCII letters,
  digits and \<open>._%+-\<close>, an \<open>@\<close>, a non-empty domain of ASCII letters, digits, dots and
  hyphens, a dot, and a top-level label of two or more ASCII letters.
\<close>

definition email_shape :: "string \<Rightarrow> bool" where
  "email_shape s =
     (\<exists>local_part domain tld.
        s = local_part @ ''@'' @ domain @ ''.'' @ tld \<and>
        local_part \<noteq> [] \<and> list_all email_local_char local_part \<and>
        domain \<noteq> [] \<and> list_all email_domain_char domain \<and>
        2 \<le> length tld \<and> list_all ascii_letter tld)"

section \<open>Name parser\<close>

text \<open>
  \<^verbatim>\<open>
  def parse_name(self, name):
      parts = name.strip().split()
      if len(parts) == 1:
          return parts[0], "", parts[0]
      elif len(parts) >= 2:
          firstname = parts[0]
          lastname = " ".join(parts[1:])
          return firstname, lastname, name.strip()
      return "", "", ""
  \<close>
  The indexing \<open>parts[0]\<close> happens only where \<open>parts\<close> is not empty.
\<close>

definition parse_name :: "string \<Rightarrow> string \<times> string \<times> string" where
  "parse_name name =
     (let parts = py_split (py_strip name) in
      if length parts = 1 then (parts ! 0, [], parts ! 0)
      else if length parts \<ge> 2 then
        (let firstname = parts ! 0; lastname = py_join '' '' (drop 1 parts)
         in (firstname, lastname, py_strip name))
      else ([], [], []))"

section \<open>The language of a regular expression\<close>

text \<open>
  What it means for a string to match an expression as a whole, against which the
  matcher is verified.
\<close>

inductive_set star_lang :: "string set \<Rightarrow> string set" for A :: "string set" where
  star_Nil: "[] \<in> star_lang A"
| star_App: "u \<in> A \<Longrightarrow> v \<in> star_lang A \<Longrightarrow> u @ v \<in> star_lang A"

definition conc_lang :: "string set \<Rightarrow> string set \<Rightarrow> string set" where
  "conc_lang A B = {w. \<exists>u v. w = u @ v \<and> u \<in> A \<and> v \<in> B}"

fun lang :: "rexp \<Rightarrow> string set" where
  "lang Empty = {}"
| "lang Eps = {[]}"
| "lang (Cls p) = {w. \<exists>c. w = [c] \<and> p c}"
| "lang (Lit a) = {[a]}"
| "lang (Alt r s) = lang r \<union> lang s"
| "lang (Seq r s) = conc_lang (lang r) (lang s)"
| "lang (Star r) = star_lang (lang r)"

section \<open>Contacts, configuration and raw rows\<close>

datatype VCardVersion = V2_1 | V3_0

record Contact =
  name :: string
  phone :: string
  email :: "string option"
  organization :: "string option"
  title :: "string option"
  address :: "string option"
  "notes" :: "string option"
  groups :: "string set option"

text \<open>
  The fields of a \<open>ContactConverter\<close> that the conversion reads. The defaults of the
  constructor are \<open>+91\<close>, version 3.0, no suffix, the directory \<open>output\<close> and backups on.
\<close>

record ContactConverter =
  country_code :: string
  vcard_version :: VCardVersion
  name_suffix :: string
  output_dir :: string
  backup :: bool

definition default_converter :: ContactConverter where
  "default_converter =
     \<lparr>country_code = ''+91'', vcard_version = V3_0, name_suffix = [],
      output_dir = ''output'', backup = True\<rparr>"

text \<open>
  A row as \<open>csv.DictReader\<close> hands it over: a dictionary in the order of the header. A
  column name is a string; a cell is a string, or \<open>None\<close> where the line was shorter
  than the header. Where the line was longer than the header, the surplus cells are
  stored as a list under the key \<open>None\<close>. The dictionary is an association list in
  iteration order; \<open>row[k]\<close> is the lookup \<open>map_of row k\<close>.
\<close>

datatype cell = Str string | NoneCell | Surplus "string list"

type_synonym raw_row = "(string option \<times> cell) list"

text \<open>
  \<^verbatim>\<open>
  next((row[k].strip() for k in row if k.strip().lower() in names), None)
  \<close>
  The generator visits the keys in order and stops at the first one that matches.
  \<open>k.strip()\<close> on the key \<open>None\<close> and \<open>row[k].strip()\<close> on a cell that is no string
  raise \<open>AttributeError\<close>.
\<close>

fun next_field :: "raw_row \<Rightarrow> string option list \<Rightarrow> string list \<Rightarrow> py_error + string option" where
  "next_field row [] names = Inr None"
| "next_field row (k # ks) names =
     (case k of
        None \<Rightarrow> Inl AttributeError
      | Some key \<Rightarrow>
          if py_lower (py_strip key) \<in> set names then
            (case map_of row k of
               None \<Rightarrow> Inl KeyError
             | Some (Str v) \<Rightarrow> Inr (Some (py_strip v))
             | Some _ \<Rightarrow> Inl AttributeError)
          else next_field row ks names)"

definition row_field :: "raw_row \<Rightarrow> string list \<Rightarrow> py_error + string option" where
  "row_field row names = next_field row (map fst row) names"

text \<open>Truth value of an optional string: \<open>None\<close> and the empty string are false.\<close>

fun truthy :: "string option \<Rightarrow> bool" where
  "truthy None = False"
| "truthy (Some s) = (s \<noteq> [])"

section \<open>Record validator\<close>

text \<open>
  \<^verbatim>\<open>
  def validate_contact(self, row):
      try:
          name = next((row[k].strip() for k in row if k.strip().lower() == "name"), None)
          phone = next((row[k].strip() for k in row if k.strip().lower() == "phone"), None)
          if not name or not phone:
              raise ValueError("Missing required fields: name or phone")
          cleaned_phone = self.clean_phone_number(phone)
          email = self.validate_email(next((... == "email"), None))
          organization = next((... in ["organization", "org"]), None)
          title = next((... == "title"), None)
          address = next((... == "address"), None)
          notes = next((... in ["notes", "note"]), None)
          return Contact(name=name, phone=cleaned_phone, email=email,
                         organization=organization, title=title,
                         address=address, notes=notes)
      except Exception as e:
          self.logger.error(...)
          return None
  \<close>
  \<open>validate_contact_try\<close> is the block under \<open>try\<close>; \<open>validate_contact\<close> adds the
  handler, which turns every \<open>Exception\<close> into the result \<open>None\<close> and lets anything else
  pass to the caller.
\<close>

definition validate_contact_try :: "ContactConverter \<Rightarrow> raw_row \<Rightarrow> py_error + Contact" where
  "validate_contact_try self row =
     bind (row_field row [''name'']) (\<lambda>name_opt.
     bind (row_field row [''phone'']) (\<lambda>phone_opt.
       case (name_opt, phone_opt) of
         (Some nm, Some ph) \<Rightarrow>
           if nm = [] \<or> ph = [] then Inl (ValueError ''Missing required fields: name or phone'')
           else
             bind (clean_phone_number (country_code self) ph) (\<lambda>cleaned_phone.
             bind (row_field row [''email'']) (\<lambda>email_opt.
             bind (row_field row [''organization'', ''org'']) (\<lambda>organization_opt.
             bind (row_field row [''title'']) (\<lambda>title_opt.
             bind (row_field row [''address'']) (\<lambda>address_opt.
             bind (row_field row [''notes'', ''note'']) (\<lambda>notes_opt.
               Inr \<lparr>name = nm, phone = cleaned_phone, email = validate_email email_opt,
                    organization = organization_opt, title = title_opt,
                    address = address_opt, notes = notes_opt, groups = None\<rparr>))))))
       | _ \<Rightarrow> Inl (ValueError ''Missing required fields: name or phone'')))"

definition validate_contact :: "ContactConverter \<Rightarrow> raw_row \<Rightarrow> py_error + Contact option" where
  "validate_contact self row =
     (case validate_contact_try self row of
        Inr contact \<Rightarrow> Inr (Some contact)
      | Inl e \<Rightarrow> if is_Exception e then Inr None else Inl e)"

section \<open>Batch reader\<close>

text \<open>
  \<^verbatim>\<open>
  def read_contacts(self, csv_file):
      valid_contacts = []
      invalid_contacts = []
      try:
          with open(csv_file, mode="r", encoding="utf-8-sig") as file:
              reader = csv.DictReader(file)
              for row_num, row in enumerate(reader, start=2):
                  contact = self.validate_contact(row)
                  if contact:
                      valid_contacts.append(contact)
                  else:
                      invalid_contacts.append({"row_number": row_num, "data": row})
          ...
          return valid_contacts, invalid_contacts
      except Exception as e:
          self.logger.error(f"Error reading CSV file: {str(e)}")
          raise
  \<close>
  A \<open>Contact\<close> object is always true, so \<open>if contact\<close> separates a contact from \<open>None\<close>.
  \<open>read_rows\<close> is the loop, with the row number and the two lists as its state.
  Decoding and parsing the file belong to Python's library: \<open>read_contacts\<close> takes their
  outcome, which is the sequence of rows or the exception that opening, decoding or
  parsing raised.
\<close>

record RejectedRow =
  row_number :: nat
  data :: raw_row

fun read_rows ::
  "ContactConverter \<Rightarrow> nat \<Rightarrow> raw_row list \<Rightarrow> Contact list \<Rightarrow> RejectedRow list \<Rightarrow>
   py_error + (Contact list \<times> RejectedRow list)" where
  "read_rows self row_num [] valid_contacts invalid_contacts =
     Inr (valid_contacts, invalid_contacts)"
| "read_rows self row_num (row # rows) valid_contacts invalid_contacts =
     (case validate_contact self row of
        Inl e \<Rightarrow> Inl e
      | Inr (Some contact) \<Rightarrow>
          read_rows self (Suc row_num) rows (valid_contacts @ [contact]) invalid_contacts
      | Inr None \<Rightarrow>
          read_rows self (Suc row_num) rows valid_contacts
            (invalid_contacts @ [\<lparr>row_number = row_num, data = row\<rparr>]))"

definition read_contacts ::
  "ContactConverter \<Rightarrow> py_error + raw_row list \<Rightarrow> py_error + (Contact list \<times> RejectedRow list)" where
  "read_contacts self reader =
     (case reader of
        Inl e \<Rightarrow> Inl e
      | Inr rows \<Rightarrow> read_rows self 2 rows [] [])"

text \<open>
  The partition in words: the accepted contacts are the results of the validator on the
  rows it accepts, the rejected rows are the rows it refuses, each with its position
  counted from 2, both in the order of the input.
\<close>

definition accepted :: "ContactConverter \<Rightarrow> raw_row \<Rightarrow> Contact option" where
  "accepted self row = (case validate_contact self row of Inr (Some c) \<Rightarrow> Some c | _ \<Rightarrow> None)"

definition accepted_contacts :: "ContactConverter \<Rightarrow> raw_row list \<Rightarrow> Contact list" where
  "accepted_contacts self rows = List.map_filter (accepted self) rows"

definition rejected_rows :: "ContactConverter \<Rightarrow> raw_row list \<Rightarrow> RejectedRow list" where
  "rejected_rows self rows =
     map (\<lambda>(n, row). \<lparr>row_number = n, data = row\<rparr>)
       (filter (\<lambda>(n, row). accepted self row = None) (zip [2 ..< 2 + length rows] rows))"

text \<open>
  A row all of whose keys and cells are strings, and the logical field of such a row in
  words: the trimmed cell of the first column whose name, trimmed and in lower case, is
  one of the accepted spellings.
\<close>

fun is_str_entry :: "string option \<times> cell \<Rightarrow> bool" where
  "is_str_entry (Some key, Str v) = True"
| "is_str_entry _ = False"

definition str_row :: "raw_row \<Rightarrow> bool" where
  "str_row row = list_all is_str_entry row"

fun key_matches :: "string list \<Rightarrow> string option \<Rightarrow> bool" where
  "key_matches names None = False"
| "key_matches names (Some key) = (py_lower (py_strip key) \<in> set names)"

definition first_column :: "raw_row \<Rightarrow> string list \<Rightarrow> string option" where
  "first_column row names =
     (case filter (\<lambda>(k, v). key_matches names k) row of
        [] \<Rightarrow> None
      | (k, Str v) # _ \<Rightarrow> Some (py_strip v)
      | _ \<Rightarrow> None)"

text \<open>The two rows of the end-to-end scenario, and the contact the first one yields.\<close>

definition row_john :: raw_row where
  "row_john = [(Some ''name'', Str ''John Smith''), (Some ''phone'', Str ''9876543210'')]"

definition row_blank :: raw_row where
  "row_blank = [(Some ''name'', Str []), (Some ''phone'', Str ''123'')]"

definition contact_john :: Contact where
  "contact_john =
     \<lparr>name = ''John Smith'', phone = ''+91  9876 5432 10'', email = None,
      organization = None, title = None, address = None, notes = None, groups = None\<rparr>"

section \<open>Card renderer\<close>

text \<open>
  A template for \<open>str.format\<close>: literal text and named replacement fields.
  \<open>template.format(**kw)\<close> replaces each field by the value given for its name and
  raises \<open>KeyError\<close> for a name without a value; inserted values are not scanned again.
\<close>

datatype tmpl_item = Text string | Field string

fun py_format :: "tmpl_item list \<Rightarrow> (string \<times> string) list \<Rightarrow> py_error + string" where
  "py_format [] kw = Inr []"
| "py_format (Text t # items) kw = bind (py_format items kw) (\<lambda>rest. Inr (t @ rest))"
| "py_format (Field f # items) kw =
     (case map_of kw f of
        None \<Rightarrow> Inl KeyError
      | Some v \<Rightarrow> bind (py_format items kw) (\<lambda>rest. Inr (v @ rest)))"

text \<open>
  \<^verbatim>\<open>
  self.templates = {
      VCardVersion.V2_1: """BEGIN:VCARD
  VERSION:2.1
  N:;{name}{suffix};;;
  FN:{name}{suffix}
  TEL;CELL;PREF:{phone}
  {email}{org}{title}{adr}{note}END:VCARD""",
      VCardVersion.V3_0: """BEGIN:VCARD
  VERSION:3.0
  N:{lastname};{firstname};;;
  FN:{fullname}{suffix}
  TEL;TYPE=CELL:{phone}
  {email}{org}{title}{adr}{note}END:VCARD""",
  }
  \<close>
\<close>

fun templates :: "VCardVersion \<Rightarrow> tmpl_item list" where
  "templates V2_1 =
     [Text (''BEGIN:VCARD'' @ NL @ ''VERSION:2.1'' @ NL @ ''N:;''),
      Field ''name'', Field ''suffix'',
      Text ('';;;'' @ NL @ ''FN:''),
      Field ''name'', Field ''suffix'',
      Text (NL @ ''TEL;CELL;PREF:''),
      Field ''phone'',
      Text NL,
      Field ''email'', Field ''org'', Field ''title'', Field ''adr'', Field ''note'',
      Text ''END:VCARD'']"
| "templates V3_0 =
     [Text (''BEGIN:VCARD'' @ NL @ ''VERSION:3.0'' @ NL @ ''N:''),
      Field ''lastname'', Text '';'', Field ''firstname'',
      Text ('';;;'' @ NL @ ''FN:''),
      Field ''fullname'', Field ''suffix'',
      Text (NL @ ''TEL;TYPE=CELL:''),
      Field ''phone'',
      Text NL,
      Field ''email'', Field ''org'', Field ''title'', Field ''adr'', Field ''note'',
      Text ''END:VCARD'']"

text \<open>
  \<^verbatim>\<open>
  def create_vcard_entry(self, contact):
      firstname, lastname, fullname = self.parse_name(contact.name)
      email_field = (
          f"EMAIL{';TYPE=INTERNET' if self.vcard_version == VCardVersion.V3_0 else ''}:{contact.email}\n"
          if contact.email else "")
      org_field = f"ORG:{contact.organization}\n" if contact.organization else ""
      title_field = f"TITLE:{contact.title}\n" if contact.title else ""
      adr_field = (
          f"ADR{';TYPE=HOME' if self.vcard_version == VCardVersion.V3_0 else ''}:;;{contact.address};;;;\n"
          if contact.address else "")
      note_field = f"NOTE:{contact.notes}\n" if contact.notes else ""
      if self.vcard_version == VCardVersion.V2_1:
          return self.templates[VCardVersion.V2_1].format(
              name=contact.name, suffix=self.name_suffix, phone=contact.phone,
              email=email_field, org=org_field, title=title_field,
              adr=adr_field, note=note_field)
      else:
          return self.templates[VCardVersion.V3_0].format(
              firstname=firstname, lastname=lastname, fullname=fullname,
              suffix=self.name_suffix, phone=contact.phone,
              email=email_field, org=org_field, title=title_field,
              adr=adr_field, note=note_field)
  \<close>
  \<open>if_present v f\<close> is the conditional \<open>f(v) if v else ""\<close> on an optional string.
\<close>

definition if_present :: "string option \<Rightarrow> (string \<Rightarrow> string) \<Rightarrow> string" where
  "if_present v f = (case v of None \<Rightarrow> [] | Some s \<Rightarrow> if s = [] then [] else f s)"

definition email_field :: "ContactConverter \<Rightarrow> Contact \<Rightarrow> string" where
  "email_field self contact =
     if_present (email contact)
       (\<lambda>e. ''EMAIL'' @ (if vcard_version self = V3_0 then '';TYPE=INTERNET'' else []) @
            '':'' @ e @ NL)"

definition org_field :: "Contact \<Rightarrow> string" where
  "org_field contact = if_present (organization contact) (\<lambda>s. ''ORG:'' @ s @ NL)"

definition title_field :: "Contact \<Rightarrow> string" where
  "title_field contact = if_present (title contact) (\<lambda>s. ''TITLE:'' @ s @ NL)"

definition adr_field :: "ContactConverter \<Rightarrow> Contact \<Rightarrow> string" where
  "adr_field self contact =
     if_present (address contact)
       (\<lambda>a. ''ADR'' @ (if vcard_version self = V3_0 then '';TYPE=HOME'' else []) @
            '':;;'' @ a @ '';;;;'' @ NL)"

definition note_field :: "Contact \<Rightarrow> string" where
  "note_field contact = if_present (notes contact) (\<lambda>s. ''NOTE:'' @ s @ NL)"

definition create_vcard_entry :: "ContactConverter \<Rightarrow> Contact \<Rightarrow> py_error + string" where
  "create_vcard_entry self contact =
     (case parse_name (name contact) of (firstname, lastname, fullname) \<Rightarrow>
        if vcard_version self = V2_1 then
          py_format (templates V2_1)
            [(''name'', name contact), (''suffix'', name_suffix self), (''phone'', phone contact),
             (''email'', email_field self contact), (''org'', org_field contact),
             (''title'', title_field contact), (''adr'', adr_field self contact),
             (''note'', note_field contact)]
        else
          py_format (templates V3_0)
            [(''firstname'', firstname), (''lastname'', lastname), (''fullname'', fullname),
             (''suffix'', name_suffix self), (''phone'', phone contact),
             (''email'', email_field self contact), (''org'', org_field contact),
             (''title'', title_field contact), (''adr'', adr_field self contact),
             (''note'', note_field contact)])"

text \<open>
  The parts of a card in words. \<open>card_top\<close> is the text before the phone line,
  \<open>tel_line\<close> the phone line, \<open>optional_lines\<close> the lines of the optional attributes that
  are present, each attribute on one line, in the order email, organization, title,
  address, notes.
\<close>

definition card_top :: "ContactConverter \<Rightarrow> Contact \<Rightarrow> string" where
  "card_top self c =
     (case vcard_version self of
        V2_1 \<Rightarrow>
          ''BEGIN:VCARD'' @ NL @ ''VERSION:2.1'' @ NL @
          ''N:;'' @ name c @ name_suffix self @ '';;;'' @ NL @
          ''FN:'' @ name c @ name_suffix self @ NL
      | V3_0 \<Rightarrow>
          ''BEGIN:VCARD'' @ NL @ ''VERSION:3.0'' @ NL @
          ''N:'' @ fst (snd (parse_name (name c))) @ '';'' @ fst (parse_name (name c)) @
            '';;;'' @ NL @
          ''FN:'' @ snd (snd (parse_name (name c))) @ name_suffix self @ NL)"

definition tel_line :: "ContactConverter \<Rightarrow> Contact \<Rightarrow> string" where
  "tel_line self c =
     (case vcard_version self of V2_1 \<Rightarrow> ''TEL;CELL;PREF:'' | V3_0 \<Rightarrow> ''TEL;TYPE=CELL:'') @
     phone c"

definition optional_block :: "ContactConverter \<Rightarrow> Contact \<Rightarrow> string" where
  "optional_block self c =
     email_field self c @ org_field c @ title_field c @ adr_field self c @ note_field c"

definition line_if_present :: "string option \<Rightarrow> (string \<Rightarrow> string) \<Rightarrow> string list" where
  "line_if_present v f = (case v of None \<Rightarrow> [] | Some s \<Rightarrow> if s = [] then [] else [f s])"

definition optional_lines :: "ContactConverter \<Rightarrow> Contact \<Rightarrow> string list" where
  "optional_lines self c =
     line_if_present (email c)
       (\<lambda>e. (case vcard_version self of V2_1 \<Rightarrow> ''EMAIL:'' | V3_0 \<Rightarrow> ''EMAIL;TYPE=INTERNET:'') @ e) @
     line_if_present (organization c) (\<lambda>s. ''ORG:'' @ s) @
     line_if_present (title c) (\<lambda>s. ''TITLE:'' @ s) @
     line_if_present (address c)
       (\<lambda>a. (case vcard_version self of V2_1 \<Rightarrow> ''ADR:;;'' | V3_0 \<Rightarrow> ''ADR;TYPE=HOME:;;'') @ a @
            '';;;;'') @
     line_if_present (notes c) (\<lambda>s. ''NOTE:'' @ s)"

fun no_line_break :: "string option \<Rightarrow> bool" where
  "no_line_break None = True"
| "no_line_break (Some s) = (CHR 0x0A \<notin> set s)"

definition single_line_values :: "Contact \<Rightarrow> bool" where
  "single_line_values c =
     (CHR 0x0A \<notin> set (phone c) \<and> no_line_break (email c) \<and> no_line_break (organization c) \<and>
      no_line_break (title c) \<and> no_line_break (address c) \<and> no_line_break (notes c))"

text \<open>Two contacts for illustration: one with a note of two lines, one with every attribute.\<close>

definition contact_two_line_note :: Contact where
  "contact_two_line_note = contact_john\<lparr>notes := Some (''a'' @ NL @ ''b'')\<rparr>"

definition contact_full :: Contact where
  "contact_full =
     contact_john\<lparr>email := Some ''j@s.org'', organization := Some ''Acme'', title := Some [],
                  address := Some ''1 Main St'', notes := Some ''met in Pune''\<rparr>"

section \<open>Conversion orchestrator\<close>

text \<open>
  The file system is a store: the regular files with their contents and the
  directories, both under the path by which the operating system reaches them. What
  belongs to Python's library and to the machine is a parameter of the model: path
  arithmetic (\<open>pathlib\<close>), the path the operating system reaches under a given path
  string, the three readings of the clock, the CSV reader and the JSON writer.
\<close>

record World =
  files :: "string \<Rightarrow> string option"
  dirs :: "string set"

record Env =
  path_resolve :: "string \<Rightarrow> string"
  canon :: "string \<Rightarrow> string"
  path_join :: "string \<Rightarrow> string \<Rightarrow> string"
  path_parent :: "string \<Rightarrow> string"
  path_parents :: "string \<Rightarrow> string list"
  path_stem :: "string \<Rightarrow> string"
  path_suffix :: "string \<Rightarrow> string"
  ts_output :: string
  ts_backup :: string
  ts_report :: string
  csv_DictReader :: "string \<Rightarrow> py_error + raw_row list"
  json_dump :: "RejectedRow list \<Rightarrow> string"

definition is_file :: "Env \<Rightarrow> World \<Rightarrow> string \<Rightarrow> bool" where
  "is_file env w p = (files w (canon env p) \<noteq> None)"

definition path_exists :: "Env \<Rightarrow> World \<Rightarrow> string \<Rightarrow> bool" where
  "path_exists env w p = (files w (canon env p) \<noteq> None \<or> canon env p \<in> dirs w)"

text \<open>\<open>open(p, "w").write(content)\<close>: the file is created or replaced.\<close>

definition write_file :: "Env \<Rightarrow> World \<Rightarrow> string \<Rightarrow> string \<Rightarrow> py_error + World" where
  "write_file env w p content =
     (if canon env p \<in> dirs w then Inl IsADirectoryError
      else Inr (w\<lparr>files := (files w)(canon env p \<mapsto> content)\<rparr>))"

text \<open>
  \<open>shutil.copy2(src, dst)\<close>: a directory as destination stands for the file of the
  source's name in it; copying a file onto itself is refused.
\<close>

definition copy2 :: "Env \<Rightarrow> World \<Rightarrow> string \<Rightarrow> string \<Rightarrow> py_error + World" where
  "copy2 env w src dst =
     (let dst' = (if canon env dst \<in> dirs w
                  then path_join env dst (path_stem env src @ path_suffix env src) else dst)
      in case files w (canon env src) of
           None \<Rightarrow> Inl IsADirectoryError
         | Some content \<Rightarrow>
             if canon env dst' = canon env src then Inl SameFileError
             else write_file env w dst' content)"

text \<open>
  \<^verbatim>\<open>
  def backup_file(self, file_path):
      if file_path.exists() and self.backup:
          backup_path = (file_path.parent /
              f"{file_path.stem}_backup_{datetime.now().strftime('%Y%m%d_%H%M%S')}{file_path.suffix}")
          shutil.copy2(file_path, backup_path)
  \<close>
\<close>

definition backup_file :: "Env \<Rightarrow> ContactConverter \<Rightarrow> World \<Rightarrow> string \<Rightarrow> py_error + World" where
  "backup_file env self w file_path =
     (if path_exists env w file_path \<and> backup self then
        let backup_path =
              path_join env (path_parent env file_path)
                (path_stem env file_path @ ''_backup_'' @ ts_backup env @ path_suffix env file_path)
        in copy2 env w file_path backup_path
      else Inr w)"

text \<open>\<open>open(csv_file)\<close> and \<open>csv.DictReader\<close> on its content.\<close>

definition open_csv :: "Env \<Rightarrow> World \<Rightarrow> string \<Rightarrow> py_error + raw_row list" where
  "open_csv env w p =
     (case files w (canon env p) of
        Some content \<Rightarrow> csv_DictReader env content
      | None \<Rightarrow> if canon env p \<in> dirs w then Inl IsADirectoryError else Inl (FileNotFoundError p))"

text \<open>\<open>d.mkdir(parents=True, exist_ok=True)\<close>.\<close>

definition mkdir_parents :: "Env \<Rightarrow> World \<Rightarrow> string \<Rightarrow> py_error + World" where
  "mkdir_parents env w d =
     (if files w (canon env d) \<noteq> None then Inl FileExistsError
      else if list_ex (\<lambda>p. files w (canon env p) \<noteq> None) (path_parents env d)
      then Inl NotADirectoryError
      else Inr (w\<lparr>dirs := dirs w \<union> set (map (canon env) (d # path_parents env d))\<rparr>))"

text \<open>
  \<^verbatim>\<open>
  def export_error_report(self, invalid_contacts):
      if not invalid_contacts:
          return
      report_path = (self.output_dir /
          f"error_report_{datetime.now().strftime('%Y%m%d_%H%M%S')}.json")
      with open(report_path, "w", encoding="utf-8") as f:
          json.dump(invalid_contacts, f, indent=2)
  \<close>
\<close>

definition export_error_report ::
  "Env \<Rightarrow> ContactConverter \<Rightarrow> World \<Rightarrow> RejectedRow list \<Rightarrow> py_error + World" where
  "export_error_report env self w invalid_contacts =
     (if invalid_contacts = [] then Inr w
      else
        let report_path =
              path_join env (output_dir self) (''error_report_'' @ ts_report env @ ''.json'')
        in write_file env w report_path (json_dump env invalid_contacts))"

text \<open>The cards of all contacts, in order; the first exception ends the rendering.\<close>

fun render_all :: "ContactConverter \<Rightarrow> Contact list \<Rightarrow> py_error + string list" where
  "render_all self [] = Inr []"
| "render_all self (contact # contacts) =
     bind (create_vcard_entry self contact) (\<lambda>entry.
     bind (render_all self contacts) (\<lambda>entries. Inr (entry # entries)))"

text \<open>
  \<^verbatim>\<open>
  def convert_to_vcard(self, csv_file, output_file=None):
      try:
          input_path = Path(csv_file).resolve()
          ...
          if not input_path.is_file():
              raise FileNotFoundError(
                  f"Input file '{csv_file}' not found.\n"
                  f"Full path attempted: {input_path}\n"
                  "Please check the filename and ensure it's in the correct directory.")
          self.preview_csv(input_path)
          if output_file is None:
              timestamp = datetime.now().strftime("%Y%m%d_%H%M%S")
              output_file = self.output_dir / f"contacts_{timestamp}.vcf"
          else:
              output_file = Path(output_file)
          self.backup_file(output_file)
          contacts, invalid_contacts = self.read_contacts(str(input_path))
          if not contacts:
              raise ValueError("No valid contacts found in the CSV file")
          self.analyze_contacts(contacts)
          vcards_content = "\n".join(
              self.create_vcard_entry(contact) for contact in contacts)
          output_file.parent.mkdir(parents=True, exist_ok=True)
          with open(output_file, mode="w", encoding="utf-8") as file:
              file.write(vcards_content)
          self.export_error_report(invalid_contacts)
          ...
      except Exception as e:
          ...
          raise
  \<close>
  The listing of the directory, \<open>preview_csv\<close> and \<open>analyze_contacts\<close> read and print
  only. The handler prints and raises the exception again, so the result of the method
  is the result of the block. The result is paired with the file system the run leaves.
\<close>

definition not_found_message :: "string \<Rightarrow> string \<Rightarrow> string" where
  "not_found_message csv_file input_path =
     ''Input file '' @ [CHR 0x27] @ csv_file @ [CHR 0x27] @ '' not found.'' @ NL @
     ''Full path attempted: '' @ input_path @ NL @
     ''Please check the filename and ensure it'' @ [CHR 0x27] @ ''s in the correct directory.''"

definition output_path :: "Env \<Rightarrow> ContactConverter \<Rightarrow> string option \<Rightarrow> string" where
  "output_path env self output_file =
     (case output_file of
        None \<Rightarrow> path_join env (output_dir self) (''contacts_'' @ ts_output env @ ''.vcf'')
      | Some p \<Rightarrow> p)"

definition convert_to_vcard ::
  "Env \<Rightarrow> ContactConverter \<Rightarrow> string \<Rightarrow> string option \<Rightarrow> World \<Rightarrow> (py_error + unit) \<times> World" where
  "convert_to_vcard env self csv_file output_file w =
     (let input_path = path_resolve env csv_file in
      if \<not> is_file env w input_path then
        (Inl (FileNotFoundError (not_found_message csv_file input_path)), w)
      else
        let out = output_path env self output_file in
        case backup_file env self w out of
          Inl e \<Rightarrow> (Inl e, w)
        | Inr w1 \<Rightarrow>
            (case read_contacts self (open_csv env w1 input_path) of
               Inl e \<Rightarrow> (Inl e, w1)
             | Inr (contacts, invalid_contacts) \<Rightarrow>
                 if contacts = [] then
                   (Inl (ValueError ''No valid contacts found in the CSV file''), w1)
                 else
                   (case render_all self contacts of
                      Inl e \<Rightarrow> (Inl e, w1)
                    | Inr entries \<Rightarrow>
                        let vcards_content = py_join NL entries in
                        (case mkdir_parents env w1 (path_parent env out) of
                           Inl e \<Rightarrow> (Inl e, w1)
                         | Inr w2 \<Rightarrow>
                             (case write_file env w2 out vcards_content of
                                Inl e \<Rightarrow> (Inl e, w2)
                              | Inr w3 \<Rightarrow>
                                  (case export_error_report env self w3 invalid_contacts of
                                     Inl e \<Rightarrow> (Inl e, w3)
                                   | Inr w4 \<Rightarrow> (Inr (), w4)))))))"

text \<open>
  A small machine for illustration: paths are plain strings, every output lives in the
  directory \<open>output\<close>, and the CSV reader knows two files by their content.
\<close>

definition demo_env :: Env where
  "demo_env =
     \<lparr>path_resolve = (\<lambda>p. ''/home/'' @ p),
      canon = (\<lambda>p. p),
      path_join = (\<lambda>d f. d @ ''/'' @ f),
      path_parent = (\<lambda>p. ''output''),
      path_parents = (\<lambda>p. []),
      path_stem = (\<lambda>p. ''contacts''),
      path_suffix = (\<lambda>p. ''.vcf''),
      ts_output = ''20240101_120000'',
      ts_backup = ''20240101_120001'',
      ts_report = ''20240101_120002'',
      csv_DictReader =
        (\<lambda>content. if content = ''good'' then Inr [row_john, row_blank]
                    else if content = ''blank'' then Inr [row_blank]
                    else Inl CsvError),
      json_dump = (\<lambda>rows. ''[...]'')\<rparr>"

definition demo_world :: World where
  "demo_world =
     \<lparr>files = [''/home/good.csv'' \<mapsto> ''good'', ''/home/blank.csv'' \<mapsto> ''blank'',
               ''output/contacts.vcf'' \<mapsto> ''old cards''],
      dirs = {''output''}\<rparr>"

section \<open>Properties of the phone normalizer\<close>

subsection \<open>Grouping into blocks of four\<close>

lemma group4_Nil: "group4 [] = []"
  by (simp add: group4_def py_range_step_def)

lemma group4_short: "0 < length s \<Longrightarrow> length s \<le> 4 \<Longrightarrow> group4 s = s"
proof -
  assume a: "0 < length s" "length s \<le> 4"
  then have "(length s - 0 + 4 - 1) div 4 = 1" by arith
  then have "py_range_step 0 (length s) 4 = [0]"
    unfolding py_range_step_def by simp
  then show ?thesis using a by (simp add: group4_def py_slice_def)
qed

lemma py_join_Cons: "ys \<noteq> [] \<Longrightarrow> py_join sep (x # ys) = x @ sep @ py_join sep ys"
  by (cases ys) simp_all

lemma group4_long:
  assumes "4 < length s"
  shows "group4 s = take 4 s @ '' '' @ group4 (drop 4 s)"
proof -
  let ?m = "(length s - 4 + 3) div 4"
  have m: "(length s + 3) div 4 = Suc ?m" using assms by arith
  have mpos: "0 < ?m" using assms by arith
  have "[0 ..< Suc ?m] = 0 # map Suc [0 ..< ?m]"
    by (simp add: upt_conv_Cons map_Suc_upt del: upt_Suc)
  then have "map (\<lambda>i. py_slice s i (i + 4)) (py_range_step 0 (length s) 4) =
        take 4 s # map (\<lambda>i. py_slice (drop 4 s) i (i + 4)) (py_range_step 0 (length (drop 4 s)) 4)"
    using m by (simp add: py_range_step_def py_slice_def comp_def add.commute del: upt_Suc)
  moreover have "map (\<lambda>i. py_slice (drop 4 s) i (i + 4)) (py_range_step 0 (length (drop 4 s)) 4) \<noteq> []"
    using mpos by (simp add: py_range_step_def)
  ultimately show ?thesis
    by (simp add: group4_def py_join_Cons)
qed

lemma is_digit_not_space: "is_digit c \<Longrightarrow> \<not> py_isspace c"
  by (auto simp: is_digit_def py_isspace_def)

lemma py_strip_id:
  assumes "s \<noteq> []" "\<not> py_isspace (hd s)" "\<not> py_isspace (last s)"
  shows "py_strip s = s"
proof -
  have l: "py_lstrip s = s"
    using assms by (cases s) (simp_all add: py_lstrip_def)
  have "dropWhile py_isspace (rev s) = rev s"
    using assms by (cases "rev s") (simp_all add: last_rev [symmetric] hd_rev)
  then show ?thesis by (simp add: py_strip_def py_rstrip_def l)
qed

lemma group4_ends:
  "s \<noteq> [] \<Longrightarrow> group4 s \<noteq> [] \<and> hd (group4 s) = hd s \<and> last (group4 s) = last s"
proof (induction "length s" arbitrary: s rule: less_induct)
  case less
  show ?case
  proof (cases "4 < length s")
    case True
    then have d: "drop 4 s \<noteq> []" "length (drop 4 s) < length s" by simp_all
    from less.hyps [OF d(2) d(1)] True less.prems show ?thesis
      by (simp add: group4_long hd_append last_drop)
  next
    case False
    with less.prems show ?thesis by (simp add: group4_short)
  qed
qed

lemma group4_nonspaces:
  "filter (\<lambda>c. c \<noteq> CHR '' '') (group4 s) = filter (\<lambda>c. c \<noteq> CHR '' '') s"
proof (induction "length s" arbitrary: s rule: less_induct)
  case less
  show ?case
  proof (cases "4 < length s")
    case True
    then have "length (drop 4 s) < length s" by simp
    from less.hyps [OF this] have
      "filter (\<lambda>c. c \<noteq> CHR '' '') (group4 (drop 4 s)) = filter (\<lambda>c. c \<noteq> CHR '' '') (drop 4 s)" .
    moreover have "filter (\<lambda>c. c \<noteq> CHR '' '') s =
        filter (\<lambda>c. c \<noteq> CHR '' '') (take 4 s) @ filter (\<lambda>c. c \<noteq> CHR '' '') (drop 4 s)"
      by (metis append_take_drop_id filter_append)
    ultimately show ?thesis using True by (simp add: group4_long)
  next
    case False
    then show ?thesis by (cases "s = []") (simp_all add: group4_Nil group4_short)
  qed
qed

lemma digits_no_plus: "\<not> startswith (re_sub_nondigits raw) ''+''"
proof (cases "re_sub_nondigits raw")
  case Nil
  then show ?thesis by (simp add: startswith_def)
next
  case (Cons c cs)
  then have "c \<in> set (filter is_digit raw)" by (simp add: re_sub_nondigits_def)
  then have "is_digit c" by simp
  then have "c \<noteq> CHR ''+''" by (auto simp: is_digit_def)
  with Cons show ?thesis by (simp add: startswith_def)
qed

subsection \<open>The grouping against its description\<close>

lemma group4_in_blocks: "group4 s = in_blocks_of_four s"
proof (induction s rule: in_blocks_of_four.induct)
  case (1 s)
  show ?case
  proof (cases "length s \<le> 4")
    case True
    then show ?thesis
      by (cases "s = []")
         (simp_all add: in_blocks_of_four.simps [of s] in_blocks_of_four.simps [of "[]"]
            group4_Nil group4_short)
  next
    case False
    with 1 show ?thesis
      by (simp add: in_blocks_of_four.simps [of s] group4_long)
  qed
qed

lemma length_in_blocks: "length (in_blocks_of_four s) = length s + (length s - 1) div 4"
proof (induction s rule: in_blocks_of_four.induct)
  case (1 s)
  show ?case
  proof (cases "length s \<le> 4")
    case True
    then have "(length s - 1) div 4 = 0" by simp
    with True show ?thesis by (simp add: in_blocks_of_four.simps [of s])
  next
    case False
    then have "(length s - 1) div 4 = Suc ((length s - 4 - 1) div 4)" by arith
    with False 1 show ?thesis by (simp add: in_blocks_of_four.simps [of s])
  qed
qed

lemma nth_in_blocks:
  "i < length (in_blocks_of_four s) \<Longrightarrow>
   in_blocks_of_four s ! i = (if i mod 5 = 4 then CHR '' '' else s ! (i - i div 5))"
proof (induction s arbitrary: i rule: in_blocks_of_four.induct)
  case (1 s)
  show ?case
  proof (cases "length s \<le> 4")
    case True
    with "1.prems" have "i < 4" by (simp add: in_blocks_of_four.simps [of s])
    then have "i mod 5 \<noteq> 4" "i div 5 = 0" by simp_all
    with True show ?thesis by (simp add: in_blocks_of_four.simps [of s])
  next
    case False
    have eq: "in_blocks_of_four s = take 4 s @ CHR '' '' # in_blocks_of_four (drop 4 s)"
      using False by (simp add: in_blocks_of_four.simps [of s])
    have l4: "length (take 4 s) = 4" using False by simp
    consider "i < 4" | "i = 4" | "5 \<le> i" by arith
    then show ?thesis
    proof cases
      case 1
      then have "i mod 5 \<noteq> 4" "i div 5 = 0" by simp_all
      with 1 l4 show ?thesis by (simp add: eq nth_append)
    next
      case 2
      with l4 show ?thesis by (simp add: eq nth_append)
    next
      case 3
      let ?j = "i - 5"
      from 3 "1.prems" l4 have j: "?j < length (in_blocks_of_four (drop 4 s))"
        by (simp add: eq)
      from 3 l4 have a: "in_blocks_of_four s ! i = in_blocks_of_four (drop 4 s) ! ?j"
        by (simp add: eq nth_append)
      from "1.IH" [OF False j]
      have b: "in_blocks_of_four (drop 4 s) ! ?j =
               (if ?j mod 5 = 4 then CHR '' '' else drop 4 s ! (?j - ?j div 5))" .
      from 3 have m: "?j mod 5 = i mod 5" by (simp add: le_mod_geq)
      from 3 have d: "?j div 5 = i div 5 - 1" by (simp add: le_div_geq)
      from 3 have k: "4 + (?j - ?j div 5) = i - i div 5" unfolding d by arith
      have len: "length (in_blocks_of_four (drop 4 s)) =
                 length s - 4 + (length s - 4 - 1) div 4"
        by (simp add: length_in_blocks)
      have "i mod 5 \<noteq> 4 \<Longrightarrow> ?j - ?j div 5 < length s - 4"
        using j 3 unfolding len d by arith
      then have "i mod 5 \<noteq> 4 \<Longrightarrow> drop 4 s ! (?j - ?j div 5) = s ! (i - i div 5)"
        using False k by simp
      with a b m show ?thesis by simp
    qed
  qed
qed

lemma in_blocks_closed_form:
  "in_blocks_of_four s =
     map (\<lambda>i. if i mod 5 = 4 then CHR '' '' else s ! (i - i div 5))
       [0 ..< length s + (length s - 1) div 4]"
  by (rule nth_equalityI) (simp_all add: length_in_blocks nth_in_blocks)

subsection \<open>Too few digits\<close>

text \<open>
  Claim C4. Whenever fewer than ten decimal digits remain after every non-digit
  character of the input has been deleted, \<open>clean_phone_number\<close> raises the
  \<open>ValueError\<close> "Phone number too short: ..." carrying the raw input, and returns no value.
\<close>

theorem clean_phone_number_too_short:
  assumes "length (filter is_digit raw) < 10"
  shows "clean_phone_number cc raw = Inl (ValueError (''Phone number too short: '' @ raw))"
  using assms by (simp add: clean_phone_number_def re_sub_nondigits_def)

theorem clean_phone_number_too_short_witness:
  "length (filter is_digit ''98-76 543'') < 10 \<and>
   clean_phone_number ''+91'' ''98-76 543'' =
     Inl (ValueError ''Phone number too short: 98-76 543'')"
  using clean_phone_number_too_short [of "''98-76 543''" "''+91''"]
  by (simp add: is_digit_def)

subsection \<open>More than ten digits\<close>

text \<open>
  Claim C10. Whenever more than ten decimal digits remain, the result is \<open>+\<close> followed
  by those digits, cut as one string into blocks of four joined by single spaces. The
  test \<open>not cleaned.startswith("+")\<close> can never fail, because \<open>cleaned\<close> holds digits
  only: a \<open>+\<close> at the front of the raw input has been deleted with every other
  non-digit, and a new one is always put in front. Trimming changes nothing. The
  result is given four times over: as the grouping of the code, as the grouping in
  words, with its first two blocks written out (\<open>+\<close> and three digits, a space, four
  digits, a space, the rest grouped), and character by character: every fifth
  character is a space, and the others are \<open>+\<close> and the digits in order. Deleting the
  spaces of the result gives back \<open>+\<close> and the digits.
\<close>

theorem clean_phone_number_long:
  assumes "10 < length (filter is_digit raw)"
  shows "\<not> startswith (re_sub_nondigits raw) ''+'' \<and>
         clean_phone_number cc raw = Inr (group4 (CHR ''+'' # filter is_digit raw)) \<and>
         filter (\<lambda>c. c \<noteq> CHR '' '') (group4 (CHR ''+'' # filter is_digit raw)) =
           CHR ''+'' # filter is_digit raw \<and>
         clean_phone_number cc raw = Inr (in_blocks_of_four (CHR ''+'' # filter is_digit raw)) \<and>
         clean_phone_number cc raw =
           Inr (CHR ''+'' # take 3 (filter is_digit raw) @ '' '' @
                take 4 (drop 3 (filter is_digit raw)) @ '' '' @
                in_blocks_of_four (drop 7 (filter is_digit raw))) \<and>
         clean_phone_number cc raw =
           Inr (map (\<lambda>i. if i mod 5 = 4 then CHR '' ''
                         else (CHR ''+'' # filter is_digit raw) ! (i - i div 5))
                  [0 ..< Suc (length (filter is_digit raw)) + length (filter is_digit raw) div 4])"
proof -
  let ?ds = "filter is_digit raw"
  let ?s = "CHR ''+'' # ?ds"
  have ne: "?ds \<noteq> []" using assms by auto
  have "last ?ds \<in> set ?ds" using ne by (rule last_in_set)
  then have "is_digit (last ?ds)" by simp
  then have ls: "\<not> py_isspace (last ?s)" using ne by (simp add: is_digit_not_space)
  have e: "group4 ?s \<noteq> [] \<and> hd (group4 ?s) = hd ?s \<and> last (group4 ?s) = last ?s"
    by (rule group4_ends) simp
  have "\<not> py_isspace (hd ?s)" by (simp add: py_isspace_def)
  with e ls have st: "py_strip (group4 ?s) = group4 ?s"
    by (intro py_strip_id) simp_all
  have "\<forall>c\<in>set ?ds. c \<noteq> CHR '' ''" by (auto simp: is_digit_def)
  then have "filter (\<lambda>c. c \<noteq> CHR '' '') ?ds = ?ds" by (rule filter_True)
  then have f: "filter (\<lambda>c. c \<noteq> CHR '' '') (group4 ?s) = ?s"
    by (simp add: group4_nonspaces)
  have c: "clean_phone_number cc raw = Inr (group4 ?s)"
    using assms digits_no_plus [of raw] st
    by (simp add: clean_phone_number_def Let_def re_sub_nondigits_def)
  have b: "group4 ?s = in_blocks_of_four ?s" by (rule group4_in_blocks)
  have b1: "in_blocks_of_four ?s = CHR ''+'' # take 3 ?ds @ '' '' @ in_blocks_of_four (drop 3 ?ds)"
    using assms by (simp add: in_blocks_of_four.simps [of ?s])
  have b2: "in_blocks_of_four (drop 3 ?ds) =
            take 4 (drop 3 ?ds) @ '' '' @ in_blocks_of_four (drop 7 ?ds)"
    using assms by (simp add: in_blocks_of_four.simps [of "drop 3 ?ds"])
  have b3: "in_blocks_of_four ?s =
            map (\<lambda>i. if i mod 5 = 4 then CHR '' '' else ?s ! (i - i div 5))
              [0 ..< Suc (length ?ds) + length ?ds div 4]"
    using in_blocks_closed_form [of ?s] by simp
  have c1: "clean_phone_number cc raw = Inr (in_blocks_of_four ?s)"
    using c b by simp
  have c2: "clean_phone_number cc raw =
           Inr (CHR ''+'' # take 3 ?ds @ '' '' @ take 4 (drop 3 ?ds) @ '' '' @
                in_blocks_of_four (drop 7 ?ds))"
    using c1 b1 b2 by simp
  have c3: "clean_phone_number cc raw =
           Inr (map (\<lambda>i. if i mod 5 = 4 then CHR '' '' else ?s ! (i - i div 5))
                  [0 ..< Suc (length ?ds) + length ?ds div 4])"
    using c1 b3 by simp
  show ?thesis using digits_no_plus c f c1 c2 c3 by blast
qed

theorem clean_phone_number_long_witness:
  "10 < length (filter is_digit ''+919876543210'') \<and>
   clean_phone_number ''+91'' ''+919876543210'' = Inr ''+919 8765 4321 0''"
proof -
  have d: "filter is_digit ''+919876543210'' = ''919876543210''"
    by (simp add: is_digit_def)
  have g: "in_blocks_of_four ''0'' = ''0''"
    by (simp add: in_blocks_of_four.simps [of "''0''"])
  have h: "10 < length (filter is_digit ''+919876543210'')" unfolding d by simp
  from clean_phone_number_long [OF h, of "''+91''"]
  have "clean_phone_number ''+91'' ''+919876543210'' =
           Inr (CHR ''+'' # take 3 (filter is_digit ''+919876543210'') @ '' '' @
                take 4 (drop 3 (filter is_digit ''+919876543210'')) @ '' '' @
                in_blocks_of_four (drop 7 (filter is_digit ''+919876543210'')))"
    by blast
  then have "clean_phone_number ''+91'' ''+919876543210'' = Inr ''+919 8765 4321 0''"
    unfolding d
    by (simp add: in_blocks_of_four.simps [of "''43210''"] g)
  with h show ?thesis by blast
qed

subsection \<open>Exactly ten digits\<close>

text \<open>
  Claim C1, as the code has it. For a string \<open>d\<close> of exactly ten decimal digits the
  result is the string \<open>country_code + " " + d\<close>, cut as a whole (prefix included) into
  blocks of four joined by single spaces, and trimmed. With the default prefix \<open>+91\<close> the
  first block is \<open>+91\<close> and the space that follows it, so the result is \<open>+91\<close>, two
  spaces, and the digits of \<open>d\<close> in blocks of four, four and two:
  \<open>clean_phone_number("9876543210") = "+91  9876 5432 10"\<close>.
\<close>

theorem clean_phone_number_ten_digits:
  assumes "length d = 10" "list_all is_digit d"
  shows "clean_phone_number cc d = Inr (py_strip (group4 (cc @ '' '' @ d))) \<and>
         clean_phone_number ''+91'' d =
           Inr (''+91  '' @ take 4 d @ '' '' @ take 4 (drop 4 d) @ '' '' @ drop 8 d)"
proof -
  have fd: "filter is_digit d = d"
    using assms(2) by (simp add: list_all_iff filter_id_conv)
  have gen: "\<And>cc. clean_phone_number cc d = Inr (py_strip (group4 (cc @ '' '' @ d)))"
    using assms(1) by (simp add: clean_phone_number_def Let_def re_sub_nondigits_def fd)
  let ?r = "''+91  '' @ take 4 d @ '' '' @ take 4 (drop 4 d) @ '' '' @ drop 8 d"
  have g1: "group4 (drop 8 d) = drop 8 d"
    using assms(1) by (simp add: group4_short)
  have g2: "group4 (drop 4 d) = take 4 (drop 4 d) @ '' '' @ drop 8 d"
    using assms(1) g1 by (simp add: group4_long)
  have g3: "group4 d = take 4 d @ '' '' @ take 4 (drop 4 d) @ '' '' @ drop 8 d"
    using assms(1) g2 by (simp add: group4_long)
  have g: "group4 (''+91'' @ '' '' @ d) = ?r"
    using assms(1) g3 by (simp add: group4_long)
  have ne: "drop 8 d \<noteq> []" using assms(1) by simp
  then have "last ?r = last d" by (simp add: last_drop)
  moreover have "last d \<in> set d" using assms(1) by (intro last_in_set) auto
  ultimately have "is_digit (last ?r)" using assms(2) by (simp add: list_all_iff)
  then have "\<not> py_isspace (last ?r)" by (rule is_digit_not_space)
  moreover have "\<not> py_isspace (hd ?r)" by (simp add: py_isspace_def)
  ultimately have "py_strip ?r = ?r" by (intro py_strip_id) simp_all
  with gen [of "''+91''"] g have "clean_phone_number ''+91'' d = Inr ?r" by simp
  with gen show ?thesis by simp
qed

theorem clean_phone_number_ten_digits_witness:
  "length ''9876543210'' = 10 \<and> list_all is_digit ''9876543210'' \<and>
   clean_phone_number ''+91'' ''9876543210'' = Inr ''+91  9876 5432 10''"
proof -
  have h1: "length ''9876543210'' = 10" by simp
  have h2: "list_all is_digit ''9876543210''" by (simp add: is_digit_def)
  from clean_phone_number_ten_digits [OF h1 h2, THEN conjunct2] h1 h2 show ?thesis by simp
qed

text \<open>
  The result for \<open>9876543210\<close> is therefore not \<open>+91 9876 5432 10\<close> with a single space
  after the prefix.
\<close>

theorem clean_phone_number_single_space_counterexample:
  "clean_phone_number ''+91'' ''9876543210'' \<noteq> Inr ''+91 9876 5432 10''"
proof -
  have d: "filter is_digit ''9876543210'' = ''9876543210''"
    by (simp add: is_digit_def)
  have g: "group4 ''+91 9876543210'' = ''+91  9876 5432 10''"
    by (simp add: group4_long group4_short)
  have "py_strip ''+91  9876 5432 10'' = ''+91  9876 5432 10''"
    by (rule py_strip_id) (simp_all add: py_isspace_def)
  then have "clean_phone_number ''+91'' ''9876543210'' = Inr ''+91  9876 5432 10''"
    unfolding clean_phone_number_def Let_def re_sub_nondigits_def d by (simp add: g)
  then show ?thesis by simp
qed
section \<open>Properties of the regular-expression matcher\<close>

lemma in_conc_lang: "w \<in> conc_lang A B \<longleftrightarrow> (\<exists>u v. w = u @ v \<and> u \<in> A \<and> v \<in> B)"
  by (simp add: conc_lang_def)

lemma nullable_iff: "nullable r \<longleftrightarrow> [] \<in> lang r"
  by (induction r) (auto simp: in_conc_lang intro: star_lang.star_Nil)

lemma star_lang_Cons_D:
  assumes "x \<in> star_lang A" "x = c # w"
  shows "\<exists>u v. w = u @ v \<and> c # u \<in> A \<and> v \<in> star_lang A"
  using assms
proof (induction arbitrary: w rule: star_lang.induct)
  case star_Nil
  then show ?case by simp
next
  case (star_App u v)
  show ?case
  proof (cases u)
    case Nil
    with star_App show ?thesis by simp
  next
    case (Cons a u')
    with star_App.prems have "a = c" "w = u' @ v" by simp_all
    with Cons star_App.hyps show ?thesis by blast
  qed
qed

lemma star_lang_Cons_iff:
  "c # w \<in> star_lang A \<longleftrightarrow> (\<exists>u v. w = u @ v \<and> c # u \<in> A \<and> v \<in> star_lang A)"
proof
  assume "c # w \<in> star_lang A"
  then show "\<exists>u v. w = u @ v \<and> c # u \<in> A \<and> v \<in> star_lang A"
    by (rule star_lang_Cons_D) simp
next
  assume "\<exists>u v. w = u @ v \<and> c # u \<in> A \<and> v \<in> star_lang A"
  then obtain u v where "w = u @ v" "c # u \<in> A" "v \<in> star_lang A" by blast
  then show "c # w \<in> star_lang A"
    using star_lang.star_App [of "c # u" A v] by simp
qed

lemma conc_lang_Cons_iff:
  "c # w \<in> conc_lang A B \<longleftrightarrow>
     ([] \<in> A \<and> c # w \<in> B) \<or> (\<exists>u v. w = u @ v \<and> c # u \<in> A \<and> v \<in> B)"
  by (auto simp: in_conc_lang Cons_eq_append_conv)

lemma deriv_lang: "w \<in> lang (deriv c r) \<longleftrightarrow> c # w \<in> lang r"
proof (induction r arbitrary: w)
  case (Seq r1 r2)
  then show ?case
    by (simp add: conc_lang_Cons_iff nullable_iff) (auto simp: in_conc_lang)
next
  case (Star r)
  then show ?case
    by (simp add: star_lang_Cons_iff in_conc_lang)
qed auto

lemma re_fullmatch_lang: "re_fullmatch r s \<longleftrightarrow> s \<in> lang r"
proof -
  have "nullable (derivs s r) \<longleftrightarrow> s \<in> lang r"
    by (induction s arbitrary: r) (simp_all add: nullable_iff deriv_lang)
  then show ?thesis by (simp add: re_fullmatch_def)
qed

lemma star_Cls: "w \<in> star_lang {w. \<exists>c. w = [c] \<and> p c} \<longleftrightarrow> list_all p w"
proof
  assume "w \<in> star_lang {w. \<exists>c. w = [c] \<and> p c}"
  then show "list_all p w"
    by (induction rule: star_lang.induct) auto
next
  assume "list_all p w"
  then show "w \<in> star_lang {w. \<exists>c. w = [c] \<and> p c}"
  proof (induction w)
    case Nil
    show ?case by (rule star_lang.star_Nil)
  next
    case (Cons a w)
    then have "[a] \<in> {w. \<exists>c. w = [c] \<and> p c}" "w \<in> star_lang {w. \<exists>c. w = [c] \<and> p c}"
      by simp_all
    from star_lang.star_App [OF this] show ?case by simp
  qed
qed

lemma conc_Cls:
  "w \<in> conc_lang {w. \<exists>c. w = [c] \<and> p c} B \<longleftrightarrow> (\<exists>c v. w = c # v \<and> p c \<and> v \<in> B)"
proof
  assume "w \<in> conc_lang {w. \<exists>c. w = [c] \<and> p c} B"
  then show "\<exists>c v. w = c # v \<and> p c \<and> v \<in> B"
    by (auto simp: in_conc_lang)
next
  assume "\<exists>c v. w = c # v \<and> p c \<and> v \<in> B"
  then obtain c v where "w = [c] @ v" "p c" "v \<in> B" by auto
  then show "w \<in> conc_lang {w. \<exists>c. w = [c] \<and> p c} B"
    unfolding in_conc_lang by blast
qed

lemma lang_plus_Cls: "w \<in> lang (re_plus (Cls p)) \<longleftrightarrow> w \<noteq> [] \<and> list_all p w"
  by (cases w) (auto simp: re_plus_def conc_Cls star_Cls)

lemma lang_at_least2_Cls: "w \<in> lang (re_at_least2 (Cls p)) \<longleftrightarrow> 2 \<le> length w \<and> list_all p w"
proof (cases w)
  case Nil
  then show ?thesis by (auto simp: re_at_least2_def conc_Cls)
next
  case (Cons a w')
  then show ?thesis
    by (cases w') (auto simp: re_at_least2_def conc_Cls star_Cls)
qed

lemma lang_email_pattern: "s \<in> lang email_pattern \<longleftrightarrow> email_shape s"
proof -
  have "s \<in> lang email_pattern \<longleftrightarrow>
        (\<exists>l r1. s = l @ r1 \<and> l \<in> lang (re_plus (Cls email_local_char)) \<and>
          (\<exists>r2. r1 = ''@'' @ r2 \<and>
            (\<exists>d r3. r2 = d @ r3 \<and> d \<in> lang (re_plus (Cls email_domain_char)) \<and>
              (\<exists>t. r3 = ''.'' @ t \<and> t \<in> lang (re_at_least2 (Cls ascii_letter))))))"
    unfolding email_pattern_def lang.simps(6) in_conc_lang lang.simps(4) by blast
  also have "\<dots> \<longleftrightarrow> email_shape s"
    unfolding lang_plus_Cls lang_at_least2_Cls email_shape_def by blast
  finally show ?thesis .
qed

section \<open>Properties of the email validator\<close>

lemma py_strip_last:
  assumes "py_strip s \<noteq> []"
  shows "\<not> py_isspace (last (py_strip s))"
proof -
  let ?d = "dropWhile py_isspace (rev (py_lstrip s))"
  have ne: "?d \<noteq> []" using assms by (simp add: py_strip_def py_rstrip_def)
  then have "\<not> py_isspace (hd ?d)" by (rule hd_dropWhile)
  moreover have "last (py_strip s) = hd ?d"
    using ne by (simp add: py_strip_def py_rstrip_def last_rev)
  ultimately show ?thesis by simp
qed

lemma re_match_anchored_strip:
  "re_match_anchored r (py_strip s) = re_fullmatch r (py_strip s)"
proof (cases "py_strip s = []")
  case True
  then show ?thesis by (simp add: re_match_anchored_def)
next
  case False
  then have "\<not> py_isspace (last (py_strip s))" by (rule py_strip_last)
  then have "last (py_strip s) \<noteq> CHR 0x0A" by (auto simp: py_isspace_def)
  then show ?thesis by (simp add: re_match_anchored_def)
qed

text \<open>
  Claim C7. \<open>validate_email\<close> returns \<open>None\<close> for \<open>None\<close> and for the empty string.
  Any other input is trimmed, and the trimmed address is returned exactly when it has
  the shape \<open>local-part@domain.tld\<close> described by \<open>email_shape\<close>; otherwise the result
  is \<open>None\<close>. The function is total: every input has a result and none raises. In
  particular \<open>a@b.co\<close> is returned as it is and \<open>not-an-email\<close> gives \<open>None\<close>.
\<close>

theorem validate_email_spec:
  "validate_email None = None \<and>
   validate_email (Some []) = None \<and>
   validate_email (Some e) =
     (if e \<noteq> [] \<and> email_shape (py_strip e) then Some (py_strip e) else None) \<and>
   validate_email (Some ''a@b.co'') = Some ''a@b.co'' \<and>
   validate_email (Some ''not-an-email'') = None"
proof -
  have "validate_email (Some e) =
     (if e \<noteq> [] \<and> email_shape (py_strip e) then Some (py_strip e) else None)"
    by (simp add: validate_email_def Let_def re_match_anchored_strip re_fullmatch_lang
        lang_email_pattern)
  moreover have "validate_email (Some ''a@b.co'') = Some ''a@b.co''" by code_simp
  moreover have "validate_email (Some ''not-an-email'') = None" by code_simp
  ultimately show ?thesis by (simp add: validate_email_def)
qed
section \<open>Properties of the name parser\<close>







section \<open>Properties of the record validator and the batch reader\<close>

lemma bind_Inl_iff:
  "bind m f = Inl e \<longleftrightarrow> m = Inl e \<or> (\<exists>x. m = Inr x \<and> f x = Inl e)"
  by (cases m) (simp_all add: bind_def)

lemma bind_InlE:
  assumes "bind m f = Inl e"
  obtains "m = Inl e" | x where "m = Inr x" "f x = Inl e"
  using assms by (cases m) (simp_all add: bind_def)

lemma bind_Inr_iff:
  "bind m f = Inr y \<longleftrightarrow> (\<exists>x. m = Inr x \<and> f x = Inr y)"
  by (cases m) (simp_all add: bind_def)

lemma next_field_Exception: "next_field row ks names = Inl e \<Longrightarrow> is_Exception e"
  by (induction ks) (auto split: option.splits if_splits cell.splits)

lemma row_field_Exception: "row_field row names = Inl e \<Longrightarrow> is_Exception e"
  unfolding row_field_def by (rule next_field_Exception)

lemma clean_phone_number_Exception: "clean_phone_number cc raw = Inl e \<Longrightarrow> is_Exception e"
  by (auto simp: clean_phone_number_def Let_def split: if_splits)

lemma validate_contact_try_Exception:
  assumes "validate_contact_try self row = Inl e"
  shows "is_Exception e"
  using assms unfolding validate_contact_try_def
  by (auto elim!: bind_InlE split: option.splits if_splits
      dest: row_field_Exception clean_phone_number_Exception)

lemma validate_contact_accepted: "validate_contact self row = Inr (accepted self row)"
proof (cases "validate_contact_try self row")
  case (Inl e)
  then have "is_Exception e" by (rule validate_contact_try_Exception)
  with Inl show ?thesis by (simp add: accepted_def validate_contact_def)
next
  case (Inr c)
  then show ?thesis by (simp add: accepted_def validate_contact_def)
qed

lemma read_rows_partition:
  "read_rows self n rows valid invalid =
     Inr (valid @ List.map_filter (accepted self) rows,
          invalid @ map (\<lambda>(n, row). \<lparr>row_number = n, data = row\<rparr>)
            (filter (\<lambda>(n, row). accepted self row = None) (zip [n ..< n + length rows] rows)))"
proof (induction rows arbitrary: n valid invalid)
  case Nil
  show ?case by (simp add: map_filter_simps)
next
  case (Cons row rows)
  have z: "zip [n ..< n + length (row # rows)] (row # rows) =
           (n, row) # zip [Suc n ..< Suc n + length rows] rows"
    by (simp add: upt_conv_Cons del: upt_Suc)
  show ?case
    unfolding z
    by (cases "accepted self row")
       (simp_all add: validate_contact_accepted Cons.IH map_filter_simps)
qed

lemma length_map_filter_partition:
  "length (List.map_filter f xs) + length (filter (\<lambda>(n, x). f x = None) (zip [k ..< k + length xs] xs))
     = length xs"
proof (induction xs arbitrary: k)
  case Nil
  show ?case by (simp add: map_filter_simps)
next
  case (Cons x xs)
  have z: "zip [k ..< k + length (x # xs)] (x # xs) =
           (k, x) # zip [Suc k ..< Suc k + length xs] xs"
    by (simp add: upt_conv_Cons del: upt_Suc)
  from Cons [of "Suc k"] show ?case
    unfolding z by (cases "f x") (simp_all add: map_filter_simps)
qed

lemma py_rstrip_prefix: "\<exists>u. t = py_rstrip t @ u"
proof -
  have "rev (py_rstrip t @ rev (takeWhile py_isspace (rev t))) = rev t"
    by (simp add: py_rstrip_def)
  then have "py_rstrip t @ rev (takeWhile py_isspace (rev t)) = t"
    by (simp only: rev_is_rev_conv)
  then show ?thesis by metis
qed

lemma py_strip_hd:
  assumes "py_strip s \<noteq> []"
  shows "\<not> py_isspace (hd (py_strip s))"
proof -
  obtain u where u: "py_lstrip s = py_strip s @ u"
    using py_rstrip_prefix [of "py_lstrip s"] by (auto simp: py_strip_def)
  with assms have ne: "py_lstrip s \<noteq> []" by auto
  from u assms have "hd (py_strip s) = hd (py_lstrip s)" by (metis hd_append2)
  moreover have "\<not> py_isspace (hd (py_lstrip s))"
    using ne unfolding py_lstrip_def by (rule hd_dropWhile)
  ultimately show ?thesis by simp
qed

lemma py_strip_idem: "py_strip (py_strip s) = py_strip s"
proof (cases "py_strip s = []")
  case True
  have "py_strip [] = []" by (simp add: py_strip_def py_lstrip_def py_rstrip_def)
  with True show ?thesis by simp
next
  case False
  then show ?thesis by (intro py_strip_id py_strip_hd py_strip_last)
qed

lemma next_field_stripped:
  "next_field row ks names = Inr (Some x) \<Longrightarrow> \<exists>v. x = py_strip v"
  by (induction ks) (auto split: option.splits if_splits cell.splits)

lemma row_field_stripped: "row_field row names = Inr (Some x) \<Longrightarrow> py_strip x = x"
  unfolding row_field_def by (auto dest!: next_field_stripped simp: py_strip_idem)

lemma next_field_first_column:
  assumes "list_all is_str_entry (pre @ rest)"
    and "list_all (\<lambda>(k, v). \<not> key_matches names k) pre"
  shows "next_field (pre @ rest) (map fst rest) names =
         Inr (case filter (\<lambda>(k, v). key_matches names k) rest of
                [] \<Rightarrow> None
              | (k, Str v) # _ \<Rightarrow> Some (py_strip v)
              | _ \<Rightarrow> None)"
  using assms
proof (induction rest arbitrary: pre)
  case Nil
  show ?case by simp
next
  case (Cons kv rest)
  obtain k v where kv: "kv = (k, v)" by (cases kv)
  from Cons.prems(1) kv obtain key s where ks: "k = Some key" "v = Str s"
    by (cases k; cases v) simp_all
  show ?case
  proof (cases "key_matches names k")
    case True
    have "k \<notin> fst ` set pre"
    proof
      assume "k \<in> fst ` set pre"
      then obtain v' where "(k, v') \<in> set pre" by auto
      with Cons.prems(2) have "\<not> key_matches names k" by (auto simp: list_all_iff)
      with True show False by simp
    qed
    then have "map_of pre k = None" by (simp add: map_of_eq_None_iff)
    then have "map_of (pre @ kv # rest) k = Some v"
      by (simp add: kv map_add_def)
    with True ks show ?thesis by (simp add: kv)
  next
    case False
    have 1: "list_all is_str_entry ((pre @ [kv]) @ rest)" using Cons.prems(1) by simp
    have 2: "list_all (\<lambda>(k, v). \<not> key_matches names k) (pre @ [kv])"
      using Cons.prems(2) False by (simp add: kv)
    from Cons.IH [OF 1 2] False ks show ?thesis by (simp add: kv)
  qed
qed

lemma row_field_first_column:
  "str_row row \<Longrightarrow> row_field row names = Inr (first_column row names)"
  using next_field_first_column [of "[]" row names]
  by (simp add: str_row_def row_field_def first_column_def)

lemma bind_InrE:
  assumes "bind m f = Inr y"
  obtains x where "m = Inr x" "f x = Inr y"
  using assms by (cases m) (simp_all add: bind_def)

lemma validate_contact_try_InrD:
  assumes "validate_contact_try self row = Inr c"
  shows "name c \<noteq> [] \<and> row_field row [''name''] = Inr (Some (name c)) \<and>
         (\<exists>ph. ph \<noteq> [] \<and> row_field row [''phone''] = Inr (Some ph) \<and>
               clean_phone_number (country_code self) ph = Inr (phone c))"
  using assms unfolding validate_contact_try_def
  by (auto elim!: bind_InrE split: option.splits if_splits)

text \<open>
  Claim C2. A contact that \<open>validate_contact\<close> returns has a name that is not empty and
  is already trimmed, namely the row's name field, and its phone is the result of
  \<open>clean_phone_number\<close> on the row's non-empty phone field; so has every contact that
  the batch reader accepts, which come from the validator only. A row of strings whose name
  field or phone field is absent or empty (after trimming) raises
  "Missing required fields: name or phone" inside the validator, and the validator
  returns \<open>None\<close>: no contact is built.
\<close>

theorem validate_contact_gate:
  "(validate_contact self row = Inr (Some c) \<longrightarrow>
      name c \<noteq> [] \<and> py_strip (name c) = name c \<and>
      row_field row [''name''] = Inr (Some (name c)) \<and>
      (\<exists>ph. ph \<noteq> [] \<and> row_field row [''phone''] = Inr (Some ph) \<and>
            clean_phone_number (country_code self) ph = Inr (phone c))) \<and>
   (str_row row \<and>
      (\<not> truthy (first_column row [''name'']) \<or> \<not> truthy (first_column row [''phone''])) \<longrightarrow>
      validate_contact_try self row = Inl (ValueError ''Missing required fields: name or phone'') \<and>
      validate_contact self row = Inr None) \<and>
   list_all (\<lambda>c'. name c' \<noteq> [] \<and> py_strip (name c') = name c' \<and>
                 (\<exists>ph. clean_phone_number (country_code self) ph = Inr (phone c')))
     (accepted_contacts self rows)"
proof (intro conjI impI)
  assume a: "validate_contact self row = Inr (Some c)"
  then have t: "validate_contact_try self row = Inr c"
    by (auto simp: validate_contact_def split: sum.splits if_splits)
  note d = validate_contact_try_InrD [OF t]
  from d show "name c \<noteq> []" by simp
  from d have "row_field row [''name''] = Inr (Some (name c))" by simp
  then show "py_strip (name c) = name c" by (rule row_field_stripped)
  from d show "row_field row [''name''] = Inr (Some (name c))" by simp
  from d show "\<exists>ph. ph \<noteq> [] \<and> row_field row [''phone''] = Inr (Some ph) \<and>
            clean_phone_number (country_code self) ph = Inr (phone c)" by simp
next
  assume a: "str_row row \<and>
      (\<not> truthy (first_column row [''name'']) \<or> \<not> truthy (first_column row [''phone'']))"
  then have f: "row_field row [''name''] = Inr (first_column row [''name''])"
      "row_field row [''phone''] = Inr (first_column row [''phone''])"
    by (simp_all add: row_field_first_column)
  from a show t: "validate_contact_try self row =
      Inl (ValueError ''Missing required fields: name or phone'')"
    unfolding validate_contact_try_def f
    by (cases "first_column row [''name'']"; cases "first_column row [''phone'']")
       (auto simp: bind_def)
  show "validate_contact self row = Inr None"
    by (simp add: validate_contact_def t)
next
  show "list_all (\<lambda>c'. name c' \<noteq> [] \<and> py_strip (name c') = name c' \<and>
                 (\<exists>ph. clean_phone_number (country_code self) ph = Inr (phone c')))
     (accepted_contacts self rows)"
    unfolding list_all_iff
  proof
    fix c' assume "c' \<in> set (accepted_contacts self rows)"
    then obtain r where "accepted self r = Some c'"
      by (auto simp: accepted_contacts_def map_filter_def)
    then have "validate_contact_try self r = Inr c'"
      by (auto simp: accepted_def validate_contact_def split: sum.splits if_splits)
    from validate_contact_try_InrD [OF this]
    have d: "name c' \<noteq> []" "row_field r [''name''] = Inr (Some (name c'))"
      "\<exists>ph. clean_phone_number (country_code self) ph = Inr (phone c')"
      by blast+
    from d(2) have "py_strip (name c') = name c'" by (rule row_field_stripped)
    with d show "name c' \<noteq> [] \<and> py_strip (name c') = name c' \<and>
                 (\<exists>ph. clean_phone_number (country_code self) ph = Inr (phone c'))"
      by blast
  qed
qed

theorem validate_contact_gate_witness:
  "validate_contact default_converter row_john = Inr (Some contact_john) \<and>
   name contact_john \<noteq> [] \<and> py_strip (name contact_john) = name contact_john \<and>
   str_row row_blank \<and> \<not> truthy (first_column row_blank [''name'']) \<and>
   validate_contact_try default_converter row_blank =
     Inl (ValueError ''Missing required fields: name or phone'') \<and>
   validate_contact default_converter row_blank = Inr None"
proof -
  have h1: "validate_contact default_converter row_john = Inr (Some contact_john)"
    by code_simp
  have h2: "str_row row_blank" by code_simp
  have h3: "\<not> truthy (first_column row_blank [''name''])" by code_simp
  from validate_contact_gate [of default_converter row_john contact_john] h1
  have "name contact_john \<noteq> [] \<and> py_strip (name contact_john) = name contact_john"
    by blast
  moreover from validate_contact_gate [of default_converter row_blank] h2 h3
  have "validate_contact_try default_converter row_blank =
          Inl (ValueError ''Missing required fields: name or phone'') \<and>
        validate_contact default_converter row_blank = Inr None"
    by blast
  ultimately show ?thesis using h1 h2 h3 by blast
qed

text \<open>
  Claim C3. For every row, also one with a missing cell or with surplus cells,
  \<open>validate_contact\<close> returns a contact or \<open>None\<close>; it never passes an exception to its
  caller, because everything the block under \<open>try\<close> can raise is an \<open>Exception\<close>.
  Hence the loop of \<open>read_contacts\<close> runs through all rows of a batch: it returns, and
  every row is counted among the accepted or the rejected ones.
\<close>

theorem validate_contact_never_raises:
  "(\<exists>r. validate_contact self row = Inr r) \<and>
   (\<exists>valid_contacts invalid_contacts.
      read_contacts self (Inr rows) = Inr (valid_contacts, invalid_contacts) \<and>
      length valid_contacts + length invalid_contacts = length rows)"
proof -
  have "read_contacts self (Inr rows) = Inr (accepted_contacts self rows, rejected_rows self rows)"
    unfolding read_contacts_def accepted_contacts_def rejected_rows_def sum.case
      read_rows_partition by simp
  moreover have
    "length (accepted_contacts self rows) + length (rejected_rows self rows) = length rows"
    unfolding accepted_contacts_def rejected_rows_def length_map
    by (rule length_map_filter_partition)
  ultimately show ?thesis using validate_contact_accepted [of self row] by blast
qed

theorem validate_contact_never_raises_witness:
  "validate_contact default_converter [(None, Surplus [''x'']), (Some ''name'', NoneCell)] = Inr None \<and>
   read_contacts default_converter
     (Inr [[(Some ''name'', NoneCell)], row_john, [(None, Surplus [''x''])]]) =
     Inr ([contact_john],
          [\<lparr>row_number = 2, data = [(Some ''name'', NoneCell)]\<rparr>,
           \<lparr>row_number = 4, data = [(None, Surplus [''x''])]\<rparr>])"
proof -
  have "validate_contact_try default_converter [(None, Surplus [''x'']), (Some ''name'', NoneCell)]
          = Inl AttributeError" by code_simp
  with validate_contact_never_raises
    [of default_converter "[(None, Surplus [''x'']), (Some ''name'', NoneCell)]" "[]"]
  have "validate_contact default_converter [(None, Surplus [''x'']), (Some ''name'', NoneCell)] = Inr None"
    by (simp add: validate_contact_def)
  moreover have "read_contacts default_converter
     (Inr [[(Some ''name'', NoneCell)], row_john, [(None, Surplus [''x''])]]) =
     Inr ([contact_john],
          [\<lparr>row_number = 2, data = [(Some ''name'', NoneCell)]\<rparr>,
           \<lparr>row_number = 4, data = [(None, Surplus [''x''])]\<rparr>])"
    by code_simp
  ultimately show ?thesis by blast
qed

text \<open>
  Claim C5. \<open>read_contacts\<close> sends every row through the validator once and returns the
  contacts of the accepted rows and the rejected rows, both in the order of the input,
  each rejected row with its position counted from 2 (row 1 being the header). The two
  rows of the scenario, under the default configuration, give one contact and one
  rejected row with number 3; in the opposite order the rejected row has number 2.
\<close>

theorem read_contacts_partition:
  "read_contacts self (Inr rows) =
     Inr (accepted_contacts self rows, rejected_rows self rows) \<and>
   read_contacts default_converter (Inr [row_john, row_blank]) =
     Inr ([contact_john], [\<lparr>row_number = 3, data = row_blank\<rparr>]) \<and>
   read_contacts default_converter (Inr [row_blank, row_john]) =
     Inr ([contact_john], [\<lparr>row_number = 2, data = row_blank\<rparr>])"
proof -
  have "read_contacts self (Inr rows) = Inr (accepted_contacts self rows, rejected_rows self rows)"
    unfolding read_contacts_def accepted_contacts_def rejected_rows_def sum.case
      read_rows_partition by simp
  moreover have "read_contacts default_converter (Inr [row_john, row_blank]) =
     Inr ([contact_john], [\<lparr>row_number = 3, data = row_blank\<rparr>])"
    by code_simp
  moreover have "read_contacts default_converter (Inr [row_blank, row_john]) =
     Inr ([contact_john], [\<lparr>row_number = 2, data = row_blank\<rparr>])"
    by code_simp
  ultimately show ?thesis by blast
qed

theorem read_contacts_partition_witness:
  "accepted_contacts default_converter [row_john, row_blank] = [contact_john] \<and>
   rejected_rows default_converter [row_john, row_blank] = [\<lparr>row_number = 3, data = row_blank\<rparr>]"
proof -
  from read_contacts_partition [of default_converter "[row_john, row_blank]"]
  have "Inr (accepted_contacts default_converter [row_john, row_blank],
             rejected_rows default_converter [row_john, row_blank]) =
        (Inr ([contact_john], [\<lparr>row_number = 3, data = row_blank\<rparr>])
           :: py_error + Contact list \<times> RejectedRow list)"
    by (elim conjE) (rule trans [OF sym])
  then show ?thesis by simp
qed

section \<open>Properties of the card renderer\<close>

lemma lines_of_not_Nil: "lines_of s \<noteq> []"
  by (induction s) (auto split: list.splits)

lemma lines_of_single: "CHR 0x0A \<notin> set a \<Longrightarrow> lines_of a = [a]"
  by (induction a) auto

lemma lines_of_first:
  "CHR 0x0A \<notin> set a \<Longrightarrow> lines_of (a @ CHR 0x0A # b) = a # lines_of b"
  by (induction a) auto

lemma lines_of_if_present:
  assumes "no_line_break v" "\<And>s. CHR 0x0A \<notin> set s \<Longrightarrow> CHR 0x0A \<notin> set (g s)"
  shows "lines_of (if_present v (\<lambda>s. g s @ NL) @ rest) = line_if_present v g @ lines_of rest"
proof (cases v)
  case None
  then show ?thesis by (simp add: if_present_def line_if_present_def)
next
  case (Some s)
  with assms have "CHR 0x0A \<notin> set (g s)" by simp
  then have "lines_of (g s @ CHR 0x0A # rest) = g s # lines_of rest"
    by (rule lines_of_first)
  with Some show ?thesis by (simp add: if_present_def line_if_present_def)
qed

lemma create_vcard_entry_text:
  "create_vcard_entry self c =
     Inr (card_top self c @ tel_line self c @ NL @ optional_block self c @ ''END:VCARD'')"
  by (cases "vcard_version self"; cases "parse_name (name c)")
     (simp_all add: create_vcard_entry_def card_top_def tel_line_def optional_block_def bind_def)

lemma optional_block_lines:
  assumes "single_line_values c"
  shows "lines_of (optional_block self c @ ''END:VCARD'') = optional_lines self c @ [''END:VCARD'']"
proof -
  from assms have nb: "no_line_break (email c)" "no_line_break (organization c)"
    "no_line_break (title c)" "no_line_break (address c)" "no_line_break (notes c)"
    by (simp_all add: single_line_values_def)
  have e: "lines_of ''END:VCARD'' = [''END:VCARD'']"
    by (rule lines_of_single) simp
  have 5: "lines_of (note_field c @ ''END:VCARD'') =
           line_if_present (notes c) (\<lambda>s. ''NOTE:'' @ s) @ [''END:VCARD'']"
    unfolding note_field_def
    using lines_of_if_present [OF nb(5), of "\<lambda>s. ''NOTE:'' @ s" "''END:VCARD''"] e
    by simp
  have 4: "lines_of (adr_field self c @ note_field c @ ''END:VCARD'') =
           line_if_present (address c)
             (\<lambda>a. (case vcard_version self of V2_1 \<Rightarrow> ''ADR:;;'' | V3_0 \<Rightarrow> ''ADR;TYPE=HOME:;;'') @ a @
                '';;;;'') @
           lines_of (note_field c @ ''END:VCARD'')"
    unfolding adr_field_def
    using lines_of_if_present [OF nb(4),
        of "\<lambda>a. (case vcard_version self of V2_1 \<Rightarrow> ''ADR:;;'' | V3_0 \<Rightarrow> ''ADR;TYPE=HOME:;;'') @ a @ '';;;;''"
           "note_field c @ ''END:VCARD''"]
    by (cases "vcard_version self") simp_all
  have 3: "lines_of (title_field c @ adr_field self c @ note_field c @ ''END:VCARD'') =
           line_if_present (title c) (\<lambda>s. ''TITLE:'' @ s) @
           lines_of (adr_field self c @ note_field c @ ''END:VCARD'')"
    unfolding title_field_def
    using lines_of_if_present [OF nb(3), of "\<lambda>s. ''TITLE:'' @ s"
        "adr_field self c @ note_field c @ ''END:VCARD''"]
    by simp
  have 2: "lines_of (org_field c @ title_field c @ adr_field self c @ note_field c @ ''END:VCARD'') =
           line_if_present (organization c) (\<lambda>s. ''ORG:'' @ s) @
           lines_of (title_field c @ adr_field self c @ note_field c @ ''END:VCARD'')"
    unfolding org_field_def
    using lines_of_if_present [OF nb(2), of "\<lambda>s. ''ORG:'' @ s"
        "title_field c @ adr_field self c @ note_field c @ ''END:VCARD''"]
    by simp
  have 1: "lines_of (email_field self c @ org_field c @ title_field c @ adr_field self c @
                     note_field c @ ''END:VCARD'') =
           line_if_present (email c)
             (\<lambda>e. (case vcard_version self of V2_1 \<Rightarrow> ''EMAIL:'' | V3_0 \<Rightarrow> ''EMAIL;TYPE=INTERNET:'') @ e) @
           lines_of (org_field c @ title_field c @ adr_field self c @ note_field c @ ''END:VCARD'')"
    unfolding email_field_def
    using lines_of_if_present [OF nb(1),
        of "\<lambda>e. (case vcard_version self of V2_1 \<Rightarrow> ''EMAIL:'' | V3_0 \<Rightarrow> ''EMAIL;TYPE=INTERNET:'') @ e"
           "org_field c @ title_field c @ adr_field self c @ note_field c @ ''END:VCARD''"]
    by (cases "vcard_version self") simp_all
  show ?thesis
    unfolding optional_block_def optional_lines_def append_assoc 1 2 3 4 5 ..
qed

lemma line_if_present_nonempty:
  assumes "\<And>s. g s \<noteq> []"
  shows "[] \<notin> set (line_if_present v g)"
proof (cases v)
  case None
  then show ?thesis by (simp add: line_if_present_def)
next
  case (Some s)
  with assms [of s] show ?thesis by (auto simp: line_if_present_def)
qed

lemma optional_lines_nonempty: "[] \<notin> set (optional_lines self c)"
  unfolding optional_lines_def set_append Un_iff de_Morgan_disj
  by (intro conjI line_if_present_nonempty; cases "vcard_version self"; simp)

text \<open>
  Claim C6, as the code has it. For every contact and both versions the card is the
  text before the phone line, the phone line, a line break, the optional block and
  \<open>END:VCARD\<close>. The optional block holds, in the order email, organization, title,
  address, notes, the label of each attribute that is present and not empty, its value
  as it is, and a line break. When the phone and the optional values contain no line
  break, the lines from the phone line on are the phone line, one line for each
  optional attribute that is present, and \<open>END:VCARD\<close>; none of them is blank, so no
  blank line stands before \<open>END:VCARD\<close>.
\<close>

theorem create_vcard_entry_lines:
  "create_vcard_entry self c =
     Inr (card_top self c @ tel_line self c @ NL @ optional_block self c @ ''END:VCARD'') \<and>
   (single_line_values c \<longrightarrow>
      lines_of (tel_line self c @ NL @ optional_block self c @ ''END:VCARD'') =
        tel_line self c # optional_lines self c @ [''END:VCARD''] \<and>
      [] \<notin> set (tel_line self c # optional_lines self c))"
proof (intro conjI impI)
  show "create_vcard_entry self c =
     Inr (card_top self c @ tel_line self c @ NL @ optional_block self c @ ''END:VCARD'')"
    by (rule create_vcard_entry_text)
next
  assume s: "single_line_values c"
  then have "CHR 0x0A \<notin> set (tel_line self c)"
    by (cases "vcard_version self") (simp_all add: single_line_values_def tel_line_def)
  then have "lines_of (tel_line self c @ CHR 0x0A # optional_block self c @ ''END:VCARD'') =
             tel_line self c # lines_of (optional_block self c @ ''END:VCARD'')"
    by (rule lines_of_first)
  then show "lines_of (tel_line self c @ NL @ optional_block self c @ ''END:VCARD'') =
        tel_line self c # optional_lines self c @ [''END:VCARD'']"
    by (simp add: optional_block_lines [OF s])
  have "tel_line self c \<noteq> []"
    by (cases "vcard_version self") (simp_all add: tel_line_def)
  then show "[] \<notin> set (tel_line self c # optional_lines self c)"
    using optional_lines_nonempty [of self c] by auto
qed

theorem create_vcard_entry_lines_witness:
  "single_line_values contact_full \<and>
   create_vcard_entry default_converter contact_full =
     Inr (''BEGIN:VCARD'' @ NL @ ''VERSION:3.0'' @ NL @ ''N:Smith;John;;;'' @ NL @
          ''FN:John Smith'' @ NL @ ''TEL;TYPE=CELL:+91  9876 5432 10'' @ NL @
          ''EMAIL;TYPE=INTERNET:j@s.org'' @ NL @ ''ORG:Acme'' @ NL @
          ''ADR;TYPE=HOME:;;1 Main St;;;;'' @ NL @ ''NOTE:met in Pune'' @ NL @ ''END:VCARD'') \<and>
   lines_of (tel_line default_converter contact_full @ NL @
             optional_block default_converter contact_full @ ''END:VCARD'') =
     [''TEL;TYPE=CELL:+91  9876 5432 10'', ''EMAIL;TYPE=INTERNET:j@s.org'', ''ORG:Acme'',
      ''ADR;TYPE=HOME:;;1 Main St;;;;'', ''NOTE:met in Pune'', ''END:VCARD'']"
proof -
  have h: "single_line_values contact_full" by code_simp
  have t: "tel_line default_converter contact_full = ''TEL;TYPE=CELL:+91  9876 5432 10''"
    by code_simp
  have o: "optional_lines default_converter contact_full =
     [''EMAIL;TYPE=INTERNET:j@s.org'', ''ORG:Acme'', ''ADR;TYPE=HOME:;;1 Main St;;;;'',
      ''NOTE:met in Pune'']"
    by code_simp
  have c: "create_vcard_entry default_converter contact_full =
     Inr (''BEGIN:VCARD'' @ NL @ ''VERSION:3.0'' @ NL @ ''N:Smith;John;;;'' @ NL @
          ''FN:John Smith'' @ NL @ ''TEL;TYPE=CELL:+91  9876 5432 10'' @ NL @
          ''EMAIL;TYPE=INTERNET:j@s.org'' @ NL @ ''ORG:Acme'' @ NL @
          ''ADR;TYPE=HOME:;;1 Main St;;;;'' @ NL @ ''NOTE:met in Pune'' @ NL @ ''END:VCARD'')"
    by code_simp
  from create_vcard_entry_lines [of default_converter contact_full] h
  have "lines_of (tel_line default_converter contact_full @ NL @
             optional_block default_converter contact_full @ ''END:VCARD'') =
        tel_line default_converter contact_full # optional_lines default_converter contact_full @
          [''END:VCARD'']"
    by blast
  then have "lines_of (tel_line default_converter contact_full @ NL @
             optional_block default_converter contact_full @ ''END:VCARD'') =
     [''TEL;TYPE=CELL:+91  9876 5432 10'', ''EMAIL;TYPE=INTERNET:j@s.org'', ''ORG:Acme'',
      ''ADR;TYPE=HOME:;;1 Main St;;;;'', ''NOTE:met in Pune'', ''END:VCARD'']"
    unfolding o by (simp add: t)
  with h c show ?thesis by blast
qed

text \<open>
  A value is inserted as it is: a note of two lines takes two lines of the card, of
  which the second carries no label.
\<close>

theorem create_vcard_entry_two_lines_counterexample:
  "lines_of (tel_line default_converter contact_two_line_note @ NL @
             optional_block default_converter contact_two_line_note @ ''END:VCARD'') =
     [''TEL;TYPE=CELL:+91  9876 5432 10'', ''NOTE:a'', ''b'', ''END:VCARD''] \<and>
   lines_of (tel_line default_converter contact_two_line_note @ NL @
             optional_block default_converter contact_two_line_note @ ''END:VCARD'') \<noteq>
     tel_line default_converter contact_two_line_note #
     optional_lines default_converter contact_two_line_note @ [''END:VCARD'']"
proof -
  have a: "lines_of (tel_line default_converter contact_two_line_note @ NL @
             optional_block default_converter contact_two_line_note @ ''END:VCARD'') =
     [''TEL;TYPE=CELL:+91  9876 5432 10'', ''NOTE:a'', ''b'', ''END:VCARD'']"
    by code_simp
  have b: "tel_line default_converter contact_two_line_note #
     optional_lines default_converter contact_two_line_note @ [''END:VCARD''] =
     [''TEL;TYPE=CELL:+91  9876 5432 10'', ''NOTE:a'' @ NL @ ''b'', ''END:VCARD'']"
    by code_simp
  show ?thesis unfolding a b by simp
qed

section \<open>Properties of the conversion orchestrator\<close>

lemma write_file_other:
  assumes "write_file env w p content = Inr w'" "canon env p \<noteq> q"
  shows "files w' q = files w q \<and> dirs w' = dirs w"
  using assms by (auto simp: write_file_def split: if_splits)

lemma copy2_keeps_source:
  assumes "copy2 env w src dst = Inr w'"
  shows "files w' (canon env src) = files w (canon env src) \<and> dirs w' = dirs w"
proof -
  let ?dst = "if canon env dst \<in> dirs w
              then path_join env dst (path_stem env src @ path_suffix env src) else dst"
  from assms obtain content where
    "canon env ?dst \<noteq> canon env src" "write_file env w ?dst content = Inr w'"
    unfolding copy2_def Let_def by (auto split: option.splits if_splits)
  then show ?thesis by (rule write_file_other [rotated])
qed

lemma backup_file_keeps:
  assumes "backup_file env self w p = Inr w'"
  shows "files w' (canon env p) = files w (canon env p) \<and> dirs w' = dirs w \<and>
         (\<not> backup self \<longrightarrow> w' = w)"
proof (cases "path_exists env w p \<and> backup self")
  case True
  with assms have "copy2 env w p
      (path_join env (path_parent env p)
        (path_stem env p @ ''_backup_'' @ ts_backup env @ path_suffix env p)) = Inr w'"
    by (simp add: backup_file_def Let_def)
  from copy2_keeps_source [OF this] True show ?thesis by simp
next
  case False
  with assms have "w' = w" by (auto simp: backup_file_def)
  then show ?thesis by simp
qed

text \<open>
  Claim C9. When the resolved input path is not a file, \<open>convert_to_vcard\<close> raises
  \<open>FileNotFoundError\<close> and leaves the file system as it found it, so the output file is
  neither created nor changed. When the input is read and no row yields a contact, it
  raises the \<open>ValueError\<close> "No valid contacts found in the CSV file" before the output
  directory is made, the output file opened or the report written: the file system is
  the one the backup step left, in which the output file and the directories are as
  before, and which is the original one when backups are off.
\<close>

theorem convert_to_vcard_fatal:
  "(\<not> is_file env w (path_resolve env csv_file) \<longrightarrow>
      convert_to_vcard env self csv_file output_file w =
        (Inl (FileNotFoundError (not_found_message csv_file (path_resolve env csv_file))), w)) \<and>
   (is_file env w (path_resolve env csv_file) \<and>
    backup_file env self w (output_path env self output_file) = Inr w1 \<and>
    read_contacts self (open_csv env w1 (path_resolve env csv_file)) = Inr ([], invalid_contacts) \<longrightarrow>
      convert_to_vcard env self csv_file output_file w =
        (Inl (ValueError ''No valid contacts found in the CSV file''), w1) \<and>
      files w1 (canon env (output_path env self output_file)) =
        files w (canon env (output_path env self output_file)) \<and>
      dirs w1 = dirs w \<and> (\<not> backup self \<longrightarrow> w1 = w))"
proof (intro conjI impI)
  assume "\<not> is_file env w (path_resolve env csv_file)"
  then show "convert_to_vcard env self csv_file output_file w =
      (Inl (FileNotFoundError (not_found_message csv_file (path_resolve env csv_file))), w)"
    by (simp add: convert_to_vcard_def)
next
  assume a: "is_file env w (path_resolve env csv_file) \<and>
    backup_file env self w (output_path env self output_file) = Inr w1 \<and>
    read_contacts self (open_csv env w1 (path_resolve env csv_file)) = Inr ([], invalid_contacts)"
  then show "convert_to_vcard env self csv_file output_file w =
        (Inl (ValueError ''No valid contacts found in the CSV file''), w1)"
    by (simp add: convert_to_vcard_def Let_def)
  from a have b: "backup_file env self w (output_path env self output_file) = Inr w1" by simp
  from backup_file_keeps [OF b]
  show "files w1 (canon env (output_path env self output_file)) =
        files w (canon env (output_path env self output_file))"
    and "dirs w1 = dirs w" and "\<not> backup self \<Longrightarrow> w1 = w"
    by simp_all
qed

theorem convert_to_vcard_fatal_witness:
  "convert_to_vcard demo_env default_converter ''missing.csv'' (Some ''output/contacts.vcf'')
     demo_world =
     (Inl (FileNotFoundError (not_found_message ''missing.csv'' ''/home/missing.csv'')),
      demo_world) \<and>
   fst (convert_to_vcard demo_env default_converter ''blank.csv'' (Some ''output/contacts.vcf'')
          demo_world) =
     Inl (ValueError ''No valid contacts found in the CSV file'') \<and>
   files (snd (convert_to_vcard demo_env default_converter ''blank.csv''
                 (Some ''output/contacts.vcf'') demo_world)) ''output/contacts.vcf'' =
     Some ''old cards''"
proof -
  let ?w1 = "demo_world\<lparr>files := (files demo_world)
               (''output/contacts_backup_20240101_120001.vcf'' \<mapsto> ''old cards'')\<rparr>"
  have r: "path_resolve demo_env ''missing.csv'' = ''/home/missing.csv''"
    "path_resolve demo_env ''blank.csv'' = ''/home/blank.csv''"
    by (simp_all add: demo_env_def)
  have o: "output_path demo_env default_converter (Some ''output/contacts.vcf'') =
           ''output/contacts.vcf''"
    by (simp add: output_path_def)
  have m: "\<not> is_file demo_env demo_world ''/home/missing.csv''"
    by (simp add: is_file_def demo_env_def demo_world_def)
  have f: "is_file demo_env demo_world ''/home/blank.csv''"
    by (simp add: is_file_def demo_env_def demo_world_def)
  have b: "backup_file demo_env default_converter demo_world ''output/contacts.vcf'' = Inr ?w1"
    by (simp add: backup_file_def copy2_def write_file_def path_exists_def Let_def
        demo_env_def demo_world_def default_converter_def)
  have "open_csv demo_env ?w1 ''/home/blank.csv'' = Inr [row_blank]"
    by (simp add: open_csv_def demo_env_def demo_world_def)
  moreover have "read_contacts default_converter (Inr [row_blank]) =
      Inr ([], [\<lparr>row_number = 2, data = row_blank\<rparr>])"
    by code_simp
  ultimately have c: "read_contacts default_converter (open_csv demo_env ?w1 ''/home/blank.csv'') =
      Inr ([], [\<lparr>row_number = 2, data = row_blank\<rparr>])"
    by simp
  note t = convert_to_vcard_fatal [of demo_env demo_world _ default_converter
      "Some ''output/contacts.vcf''" ?w1 "[\<lparr>row_number = 2, data = row_blank\<rparr>]"]
  from t [of "''missing.csv''"] m
  have 1: "convert_to_vcard demo_env default_converter ''missing.csv''
      (Some ''output/contacts.vcf'') demo_world =
     (Inl (FileNotFoundError (not_found_message ''missing.csv'' ''/home/missing.csv'')),
      demo_world)"
    unfolding r o by blast
  from t [of "''blank.csv''"] f b c
  have 2: "convert_to_vcard demo_env default_converter ''blank.csv''
      (Some ''output/contacts.vcf'') demo_world =
      (Inl (ValueError ''No valid contacts found in the CSV file''), ?w1)"
    and 3: "files ?w1 (canon demo_env ''output/contacts.vcf'') =
            files demo_world (canon demo_env ''output/contacts.vcf'')"
    unfolding r o by blast+
  have "files demo_world (canon demo_env ''output/contacts.vcf'') = Some ''old cards''"
    by (simp add: demo_env_def demo_world_def)
  with 3 have "files ?w1 ''output/contacts.vcf'' = Some ''old cards''"
    by (simp add: demo_env_def)
  with 1 2 show ?thesis by simp
qed


end
